theory Spec2Isabelle
  imports Complex_Main "HOL-Library.AList" "HOL-Library.Sublist"
begin

section \<open>JavaScript values\<close>

text \<open>
  The bot is TypeScript; at run time its values are JavaScript values. The only values
  of unknown shape are the ones \<^verbatim>\<open>JSON.parse\<close> returns, so the model has a type of
  JSON values. A JSON number is a double that is never \<^verbatim>\<open>NaN\<close> (there is no such
  literal), but may be infinite (\<^verbatim>\<open>JSON.parse("1e999")\<close>); every double is a rational, so
  numbers are rationals extended by the two infinities. Strings are lists of characters:
  the code units below 256, which are the characters of Latin-1. Text with other
  characters is outside the model.
\<close>

datatype jsnum = NegInf | Fin rat | PosInf

text \<open>\<^verbatim>\<open>a <= b\<close> and \<^verbatim>\<open>a < b\<close> on numbers that are not \<^verbatim>\<open>NaN\<close>.\<close>

fun num_le :: "jsnum \<Rightarrow> jsnum \<Rightarrow> bool" where
  "num_le NegInf b = True"
| "num_le (Fin x) NegInf = False"
| "num_le (Fin x) (Fin y) = (x \<le> y)"
| "num_le (Fin x) PosInf = True"
| "num_le PosInf b = (b = PosInf)"

fun num_lt :: "jsnum \<Rightarrow> jsnum \<Rightarrow> bool" where
  "num_lt NegInf b = (b \<noteq> NegInf)"
| "num_lt (Fin x) NegInf = False"
| "num_lt (Fin x) (Fin y) = (x < y)"
| "num_lt (Fin x) PosInf = True"
| "num_lt PosInf b = False"

datatype json =
    JNull
  | JBool bool
  | JNum jsnum
  | JStr string
  | JArr "json list"
  | JObj "(string \<times> json) list"

text \<open>The properties of an object; \<open>map_of obj k = None\<close> is \<^verbatim>\<open>obj.k === undefined\<close>.\<close>

type_synonym jsobject = "(string \<times> json) list"

text \<open>A thrown \<^verbatim>\<open>Error\<close>, with its \<^verbatim>\<open>message\<close> and \<^verbatim>\<open>stack\<close>.\<close>

datatype jserror = Error (message: string) (stack: string)

text \<open>\<^verbatim>\<open>s.includes(sub)\<close>: \<open>sub\<close> occurs in \<open>s\<close> as a contiguous block, letter case kept.\<close>

fun str_includes :: "string \<Rightarrow> string \<Rightarrow> bool" where
  "str_includes [] sub = (sub = [])"
| "str_includes (c # cs) sub = (prefix sub (c # cs) \<or> str_includes cs sub)"

text \<open>
  \<^verbatim>\<open>s.toLowerCase()\<close>: the capital letters of Latin-1 are \<^verbatim>\<open>A\<close> to \<^verbatim>\<open>Z\<close> and the code units
  192 to 222 except the multiplication sign 215; each has its small letter 32 places on.
\<close>

definition lowerChar :: "char \<Rightarrow> char" where
  "lowerChar c =
     (let n = (of_char c :: nat)
      in if 65 \<le> n \<and> n \<le> 90 \<or> 192 \<le> n \<and> n \<le> 214 \<or> 216 \<le> n \<and> n \<le> 222
         then char_of (n + 32) else c)"

definition toLowerCase :: "string \<Rightarrow> string" where
  "toLowerCase s = map lowerChar s"

section \<open>The error analysis engine (error-analyzer.ts)\<close>

subsection \<open>ErrorAnalysis and FixAttempt\<close>

datatype errorType = timeout | locator | network | captcha | ui_change | unknown

datatype severity = low | medium | high

record ErrorAnalysis =
  errorType :: errorType
  severity :: severity
  suggestedFixes :: "string list"
  alternativeLocators :: "string list"
  shouldRetry :: bool
  retryDelay :: nat

subsection \<open>The deterministic fallback classifier\<close>

definition getContextBasedLocators :: "string \<Rightarrow> string list" where
  "getContextBasedLocators context =
     (if str_includes context ''login'' then
        [''#usernameField'', ''[name=\"email\"]'', ''[type=\"email\"]'', ''#emailField'']
      else if str_includes context ''job'' then
        [''.jobTuple'', ''.job-card'', ''.job-listing'', ''.title'']
      else if str_includes context ''apply'' then
        [''button:has-text(\"Apply\")'', ''.apply-btn'', ''a:has-text(\"Apply\")'']
      else [])"

definition fallbackErrorAnalysis :: "string \<Rightarrow> string \<Rightarrow> ErrorAnalysis" where
  "fallbackErrorAnalysis errorMessage context =
     (if str_includes errorMessage ''timeout'' then
        \<lparr>errorType = timeout, severity = medium,
         suggestedFixes = [''increase timeout'', ''wait for load'', ''retry navigation''],
         alternativeLocators = [], shouldRetry = True, retryDelay = 5000\<rparr>
      else if str_includes errorMessage ''locator'' \<or> str_includes errorMessage ''selector'' then
        \<lparr>errorType = locator, severity = high,
         suggestedFixes = [''try alternative locators'', ''update selectors'', ''wait for element''],
         alternativeLocators = getContextBasedLocators context,
         shouldRetry = True, retryDelay = 2000\<rparr>
      else
        \<lparr>errorType = unknown, severity = medium,
         suggestedFixes = [''retry operation'', ''wait and retry''],
         alternativeLocators = [], shouldRetry = True, retryDelay = 3000\<rparr>)"

text \<open>The object literal the fallback returns, as the run-time object it is.\<close>

fun errorTypeName :: "errorType \<Rightarrow> string" where
  "errorTypeName timeout = ''timeout''"
| "errorTypeName locator = ''locator''"
| "errorTypeName network = ''network''"
| "errorTypeName captcha = ''captcha''"
| "errorTypeName ui_change = ''ui_change''"
| "errorTypeName unknown = ''unknown''"

fun severityName :: "severity \<Rightarrow> string" where
  "severityName low = ''low''"
| "severityName medium = ''medium''"
| "severityName high = ''high''"

definition toObject :: "ErrorAnalysis \<Rightarrow> jsobject" where
  "toObject a =
     [(''errorType'', JStr (errorTypeName (errorType a))),
      (''severity'', JStr (severityName (severity a))),
      (''suggestedFixes'', JArr (map JStr (suggestedFixes a))),
      (''alternativeLocators'', JArr (map JStr (alternativeLocators a))),
      (''shouldRetry'', JBool (shouldRetry a)),
      (''retryDelay'', JNum (Fin (of_nat (retryDelay a))))]"

text \<open>
  What the interface \<^verbatim>\<open>ErrorAnalysis\<close> (error-analyzer.ts, lines 4 to 11) requires of a
  run-time object: the six fields, each of its declared type.
\<close>

fun isStr :: "json \<Rightarrow> bool" where
  "isStr (JStr s) = True"
| "isStr j = False"

definition isErrorAnalysisObject :: "jsobject \<Rightarrow> bool" where
  "isErrorAnalysisObject obj =
     ((case map_of obj ''errorType'' of
         Some (JStr t) \<Rightarrow> t \<in> set (map errorTypeName [timeout, locator, network, captcha, ui_change, unknown])
       | _ \<Rightarrow> False) \<and>
      (case map_of obj ''severity'' of
         Some (JStr v) \<Rightarrow> v \<in> set (map severityName [low, medium, high])
       | _ \<Rightarrow> False) \<and>
      (case map_of obj ''suggestedFixes'' of Some (JArr xs) \<Rightarrow> list_all isStr xs | _ \<Rightarrow> False) \<and>
      (case map_of obj ''alternativeLocators'' of Some (JArr xs) \<Rightarrow> list_all isStr xs | _ \<Rightarrow> False) \<and>
      (case map_of obj ''shouldRetry'' of Some (JBool b) \<Rightarrow> True | _ \<Rightarrow> False) \<and>
      (case map_of obj ''retryDelay'' of Some (JNum n) \<Rightarrow> True | _ \<Rightarrow> False))"

definition isErrorAnalysis :: "json \<Rightarrow> bool" where
  "isErrorAnalysis v = (case v of JObj obj \<Rightarrow> isErrorAnalysisObject obj | _ \<Rightarrow> False)"

subsection \<open>The collaborators: page, oracle, console input\<close>

text \<open>
  The prompts are fixed templates; a prompt is given by the values interpolated into it.
\<close>

datatype prompt =
    AnalysisPrompt
      (p_context: string) (p_url: string) (p_title: string) (p_message: string) (p_stack: string)
      (p_visible: "string list") (p_login: bool) (p_jobs: bool) (p_captcha: bool)
      (p_previous: "(string \<times> nat) list")
  | UIAnalysisPrompt string string string
  | JobPrompt (j_profile: string) (j_title: string) (j_company: string) (j_salary: string)
      (j_description: string)

text \<open>The four patterns of \<^verbatim>\<open>extractSelectorsFromText\<close>, in their order.\<close>

datatype selectorPattern = IdOrClass | ElementAttribute | ElementPseudo | ElementCombination

text \<open>
  Everything outside the repository is a parameter: the browser page (Playwright), the
  oracle (Ollama), the JavaScript built-ins that are not modelled (\<^verbatim>\<open>JSON.parse\<close>, the
  conversion of a non-string to text, global regular-expression matching) and the
  console input. \<open>'w\<close> is the state of that outside world. A call that rejects gives
  \<open>Inl\<close>; \<^verbatim>\<open>JSON.parse\<close> gives \<open>None\<close> when it throws. An oracle reply whose content is
  not a string makes the next line throw inside the same \<^verbatim>\<open>try\<close>, so it is a rejected
  call here. \<open>llm_chat\<close> is the chat call of the engine's Ollama client; \<open>fetch_chat\<close>
  is \<^verbatim>\<open>makeOllamaRequest\<close> of the job analyzer, which posts the prompt and throws unless
  the response is ok. \<open>page_evaluate_visible\<close> is the script that \<^verbatim>\<open>getVisibleElements\<close>
  runs inside the page. \<open>readline_question\<close> is \<open>None\<close> when no line ever arrives on
  standard input.
\<close>

record 'w env =
  page_title :: "'w \<Rightarrow> (jserror + string) \<times> 'w"
  page_content :: "'w \<Rightarrow> (jserror + string) \<times> 'w"
  page_url :: "'w \<Rightarrow> string"
  page_evaluate_visible :: "'w \<Rightarrow> (jserror + string list) \<times> 'w"
  page_waitForTimeout :: "nat \<Rightarrow> 'w \<Rightarrow> (jserror + unit) \<times> 'w"
  page_waitForLoadState :: "nat \<Rightarrow> 'w \<Rightarrow> (jserror + unit) \<times> 'w"
  page_reload :: "nat option \<Rightarrow> 'w \<Rightarrow> (jserror + unit) \<times> 'w"
  page_screenshot :: "'w \<Rightarrow> (jserror + unit) \<times> 'w"
  locator_isVisible :: "json \<Rightarrow> nat \<Rightarrow> 'w \<Rightarrow> (jserror + bool) \<times> 'w"
  llm_chat :: "prompt \<Rightarrow> 'w \<Rightarrow> (jserror + string) \<times> 'w"
  fetch_chat :: "prompt \<Rightarrow> 'w \<Rightarrow> (jserror + string) \<times> 'w"
  JSON_parse :: "string \<Rightarrow> json option"
  String_of :: "json \<Rightarrow> string"
  String_match :: "selectorPattern \<Rightarrow> string \<Rightarrow> string list"
  readline_question :: "'w \<Rightarrow> 'w option"
  setTimeout_wait :: "json option \<Rightarrow> 'w \<Rightarrow> 'w"

text \<open>
  The calls that the claims speak of are recorded in a log: each invocation of the
  operation, each call of the fix dispatcher, each visibility probe with its locator and
  timeout.
\<close>

datatype call = OperationCall | AttemptFixCall | IsVisibleCall json nat

text \<open>
  The session: the fields of \<^verbatim>\<open>SelfHealingIntelligentNaukriBot\<close> that the executor uses
  and those of its \<^verbatim>\<open>ErrorAnalysisEngine\<close>. A \<^verbatim>\<open>Map\<close> is the list of its entries in insertion
  order.
\<close>

record 'w bot =
  world :: 'w
  calls :: "call list"
  maxRetryAttempts :: jsnum
  totalErrors :: nat
  fixedErrors :: nat
  errorTypes :: "(json option \<times> nat) list"
  hasErrorAnalyzer :: bool
  errorHistory :: "(string \<times> nat) list"
  successfulFixes :: "(string \<times> json) list"

text \<open>An awaited call returns, throws, or never settles.\<close>

datatype 'a outcome = Returned 'a | Thrown jserror | Pending

subsection \<open>analyzeError\<close>

text \<open>
  \<^verbatim>\<open>content.match(/\{[\s\S]*\}/)\<close>: the star is greedy and its class matches every
  character, so the match runs from the first opening brace to the last closing brace of
  the text, when that one comes later.
\<close>

definition jsonMatch :: "string \<Rightarrow> string option" where
  "jsonMatch content =
     (case dropWhile (\<lambda>c. c \<noteq> CHR ''{'') content of
        [] \<Rightarrow> None
      | b # rest \<Rightarrow>
          (case rev (dropWhile (\<lambda>c. c \<noteq> CHR ''}'') (rev rest)) of
             [] \<Rightarrow> None
           | body \<Rightarrow> Some (b # body)))"

definition logError :: "string \<Rightarrow> 'w bot \<Rightarrow> 'w bot" where
  "logError error s =
     (let count = (case map_of (errorHistory s) error of None \<Rightarrow> 0 | Some c \<Rightarrow> c)
      in s\<lparr>errorHistory := AList.update error (count + 1) (errorHistory s)\<rparr>)"

definition orElse :: "(jserror + 'a) \<Rightarrow> 'a \<Rightarrow> 'a" where
  "orElse r d = (case r of Inl e \<Rightarrow> d | Inr v \<Rightarrow> v)"

definition analysisPrompt ::
  "jserror \<Rightarrow> string \<Rightarrow> string \<Rightarrow> string \<Rightarrow> string \<Rightarrow> string list \<Rightarrow> (string \<times> nat) list \<Rightarrow> prompt" where
  "analysisPrompt error context currentUrl pageTitle pageHtml visibleElements history =
     AnalysisPrompt context currentUrl pageTitle (message error) (stack error)
       (take 10 visibleElements)
       (str_includes pageHtml ''password'' \<or> str_includes pageHtml ''login'')
       (str_includes pageHtml ''jobTuple'' \<or> str_includes pageHtml ''job'')
       (str_includes pageHtml ''captcha'' \<or> str_includes pageHtml ''recaptcha'')
       history"

text \<open>
  The first half of \<^verbatim>\<open>analyzeError\<close> reads the page, builds the prompt and asks the
  oracle; each page read has its own handler.
\<close>

definition askOracle ::
  "'w env \<Rightarrow> jserror \<Rightarrow> string \<Rightarrow> string \<Rightarrow> 'w bot \<Rightarrow> (jserror + string) \<times> 'w" where
  "askOracle env error context currentUrl s =
     (let (r1, w1) = page_title env (world s);
          pageTitle = orElse r1 ''Unknown'';
          (r2, w2) = page_content env w1;
          pageHtml = orElse r2 [];
          (r3, w3) = page_evaluate_visible env w2;
          visibleElements = orElse r3 []
      in llm_chat env
           (analysisPrompt error context currentUrl pageTitle pageHtml visibleElements
              (errorHistory s)) w3)"

text \<open>
  The second half is the \<^verbatim>\<open>try\<close> block and the fallback after it. A rejected oracle call
  and a throwing \<^verbatim>\<open>JSON.parse\<close> end in the \<^verbatim>\<open>catch\<close>, a reply without a match skips the
  \<^verbatim>\<open>if\<close>; all three reach the last line.
\<close>

definition analyzeError ::
  "'w env \<Rightarrow> jserror \<Rightarrow> string \<Rightarrow> string \<Rightarrow> 'w bot \<Rightarrow> json outcome \<times> 'w bot" where
  "analyzeError env error context currentUrl s =
     (let errorMessage = message error;
          (response, w) = askOracle env error context currentUrl s;
          s' = s\<lparr>world := w\<rparr>;
          fallback = (Returned (JObj (toObject (fallbackErrorAnalysis errorMessage context))), s')
      in case response of
           Inl llmError \<Rightarrow> fallback
         | Inr content \<Rightarrow>
             (case jsonMatch content of
                None \<Rightarrow> fallback
              | Some jsonText \<Rightarrow>
                  (case JSON_parse env jsonText of
                     None \<Rightarrow> fallback
                   | Some analysis \<Rightarrow> (Returned analysis, logError errorMessage s'))))"

subsection \<open>The fix handlers\<close>

record FixAttempt =
  strategy :: json
  success :: bool
  newLocator :: "json option"
  "notes" :: string

text \<open>
  The values the dispatcher reads out of the analysis have the shape the oracle gave them.
  \<open>js_includes\<close> is \<^verbatim>\<open>fix.includes(sub)\<close>: a string searches for a substring, an array for
  an element, and every other value has no such method. \<open>js_iterate\<close> is what
  \<^verbatim>\<open>for (const x of v)\<close> runs through: the elements of an array, the characters of a
  string; nothing else that JSON can denote is iterable. \<open>truthy\<close> is the condition of an
  \<^verbatim>\<open>if\<close>. \<open>template\<close> is \<^verbatim>\<open>${v}\<close> inside a template literal.
\<close>

definition TypeError :: "string \<Rightarrow> jserror" where
  "TypeError what = Error (''TypeError: '' @ what) []"

fun js_includes :: "json \<Rightarrow> string \<Rightarrow> jserror + bool" where
  "js_includes (JStr t) sub = Inr (str_includes t sub)"
| "js_includes (JArr xs) sub = Inr (JStr sub \<in> set xs)"
| "js_includes j sub = Inl (TypeError ''fix.includes is not a function'')"

fun js_iterate :: "json option \<Rightarrow> jserror + json list" where
  "js_iterate (Some (JArr xs)) = Inr xs"
| "js_iterate (Some (JStr t)) = Inr (map (\<lambda>c. JStr [c]) t)"
| "js_iterate v = Inl (TypeError ''value is not iterable'')"

fun truthy :: "json option \<Rightarrow> bool" where
  "truthy None = False"
| "truthy (Some JNull) = False"
| "truthy (Some (JBool b)) = b"
| "truthy (Some (JNum n)) = (n \<noteq> Fin 0)"
| "truthy (Some (JStr t)) = (t \<noteq> [])"
| "truthy (Some j) = True"

definition template :: "'w env \<Rightarrow> json \<Rightarrow> string" where
  "template env j = (case j of JStr t \<Rightarrow> t | _ \<Rightarrow> String_of env j)"

definition onPage :: "('w \<Rightarrow> 'r \<times> 'w) \<Rightarrow> 'w bot \<Rightarrow> 'r \<times> 'w bot" where
  "onPage f s = (case f (world s) of (r, w) \<Rightarrow> (r, s\<lparr>world := w\<rparr>))"

definition fixTimeout :: "'w env \<Rightarrow> json \<Rightarrow> string \<Rightarrow> 'w bot \<Rightarrow> FixAttempt outcome \<times> 'w bot" where
  "fixTimeout env fix context s =
     (case js_includes fix ''increase timeout'' of
        Inl e \<Rightarrow> (Thrown e, s)
      | Inr True \<Rightarrow>
          (case onPage (page_waitForTimeout env 5000) s of
             (Inl e, s') \<Rightarrow> (Thrown e, s')
           | (Inr u, s') \<Rightarrow>
               (Returned \<lparr>strategy = JStr ''Increased timeout'', success = True,
                  newLocator = None, notes = ''Added 5 second delay''\<rparr>, s'))
      | Inr False \<Rightarrow>
     (case js_includes fix ''wait for load'' of
        Inl e \<Rightarrow> (Thrown e, s)
      | Inr True \<Rightarrow>
          (case onPage (page_waitForLoadState env 60000) s of
             (Inl e, s') \<Rightarrow> (Thrown e, s')
           | (Inr u, s') \<Rightarrow>
               (Returned \<lparr>strategy = JStr ''Wait for DOM content loaded'', success = True,
                  newLocator = None, notes = ''Waited for DOM to load''\<rparr>, s'))
      | Inr False \<Rightarrow>
     (case js_includes fix ''retry navigation'' of
        Inl e \<Rightarrow> (Thrown e, s)
      | Inr True \<Rightarrow>
          (case onPage (page_reload env None) s of
             (Inl e, s') \<Rightarrow> (Thrown e, s')
           | (Inr u, s') \<Rightarrow>
               (Returned \<lparr>strategy = JStr ''Page reload'', success = True,
                  newLocator = None, notes = ''Reloaded page''\<rparr>, s'))
      | Inr False \<Rightarrow>
          (Returned \<lparr>strategy = fix, success = False,
             newLocator = None, notes = ''Timeout fix not implemented''\<rparr>, s))))"

text \<open>
  The three loops of \<^verbatim>\<open>fixLocator\<close> and the one of \<^verbatim>\<open>fixUIChange\<close> are the same loop:
  probe the candidates in order, each with the given timeout; a probe that throws or says
  no moves on to the next candidate; the first visible one ends the loop.
\<close>

fun firstVisible :: "'w env \<Rightarrow> nat \<Rightarrow> json list \<Rightarrow> 'w bot \<Rightarrow> json option \<times> 'w bot" where
  "firstVisible env ms [] s = (None, s)"
| "firstVisible env ms (l # ls) s =
     (case onPage (locator_isVisible env l ms) s of
        (r, s') \<Rightarrow>
          (let s'' = s'\<lparr>calls := calls s' @ [IsVisibleCall l ms]\<rparr>
           in if r = Inr True then (Some l, s'') else firstVisible env ms ls s''))"

definition loginLocators :: "string list" where
  "loginLocators =
     [''#usernameField, #emailField, [name=\"email\"], [type=\"email\"]'',
      ''#passwordField, [name=\"password\"], [type=\"password\"]'',
      ''button[type=\"submit\"], .login-btn, #loginButton'']"

definition jobLocators :: "string list" where
  "jobLocators =
     [''.jobTuple, .job-card, .job-listing'',
      ''button:has-text(\"Apply\"), a:has-text(\"Apply\"), .apply-btn'',
      ''.job-title, .title, h2, h3'']"

definition found :: "'w env \<Rightarrow> string \<Rightarrow> string \<Rightarrow> json \<Rightarrow> FixAttempt" where
  "found env strategyLabel notesLabel l =
     \<lparr>strategy = JStr (strategyLabel @ template env l), success = True,
      newLocator = Some l, notes = notesLabel @ template env l\<rparr>"

definition fixLocator ::
  "'w env \<Rightarrow> json \<Rightarrow> json option \<Rightarrow> string \<Rightarrow> 'w bot \<Rightarrow> FixAttempt outcome \<times> 'w bot" where
  "fixLocator env fix alternativeLocators' context s =
     (case js_iterate alternativeLocators' of
        Inl e \<Rightarrow> (Thrown e, s)
      | Inr candidates \<Rightarrow>
     (case firstVisible env 5000 candidates s of
        (Some l, s1) \<Rightarrow>
          (Returned (found env ''Alternative locator: '' ''Found working locator: '' l), s1)
      | (None, s1) \<Rightarrow>
     (case (if str_includes context ''login''
            then firstVisible env 2000 (map JStr loginLocators) s1 else (None, s1)) of
        (Some l, s2) \<Rightarrow>
          (Returned (found env ''Smart login locator: '' ''Discovered login element: '' l), s2)
      | (None, s2) \<Rightarrow>
     (case (if str_includes context ''job'' \<or> str_includes context ''apply''
            then firstVisible env 2000 (map JStr jobLocators) s2 else (None, s2)) of
        (Some l, s3) \<Rightarrow>
          (Returned (found env ''Smart job locator: '' ''Discovered job element: '' l), s3)
      | (None, s3) \<Rightarrow>
          (Returned \<lparr>strategy = JStr ''Locator discovery failed'', success = False,
             newLocator = None, notes = ''No working alternative locators found''\<rparr>, s3)))))"

text \<open>
  \<^verbatim>\<open>[...new Set(selectors)]\<close> keeps the first occurrence of each element.
\<close>

definition dedupe :: "'a list \<Rightarrow> 'a list" where
  "dedupe xs = rev (remdups (rev xs))"

definition extractSelectorsFromText :: "'w env \<Rightarrow> string \<Rightarrow> string list" where
  "extractSelectorsFromText env text =
     take 5 (dedupe (concat (map (\<lambda>pattern. String_match env pattern text)
       [IdOrClass, ElementAttribute, ElementPseudo, ElementCombination])))"

definition fixUIChange :: "'w env \<Rightarrow> json \<Rightarrow> string \<Rightarrow> 'w bot \<Rightarrow> FixAttempt outcome \<times> 'w bot" where
  "fixUIChange env fix context s =
     (case onPage (page_screenshot env) s of
        (Inl e, s1) \<Rightarrow> (Thrown e, s1)
      | (Inr screenshot, s1) \<Rightarrow>
     (let currentUrl = page_url env (world s1) in
      case onPage (page_title env) s1 of
        (Inl e, s2) \<Rightarrow> (Thrown e, s2)
      | (Inr pageTitle, s2) \<Rightarrow>
     (let failed = \<lparr>strategy = JStr ''UI change adaptation'', success = False,
                     newLocator = None, notes = ''Could not adapt to UI changes''\<rparr> in
      case onPage (llm_chat env (UIAnalysisPrompt context currentUrl pageTitle)) s2 of
        (Inl e, s3) \<Rightarrow> (Returned failed, s3)
      | (Inr content, s3) \<Rightarrow>
          (case firstVisible env 3000 (map JStr (extractSelectorsFromText env content)) s3 of
             (Some l, s4) \<Rightarrow>
               (Returned (found env ''UI change adaptation: '' ''Adapted to UI change with: '' l), s4)
           | (None, s4) \<Rightarrow> (Returned failed, s4)))))"

definition fixNetworkIssue :: "'w env \<Rightarrow> json \<Rightarrow> 'w bot \<Rightarrow> FixAttempt outcome \<times> 'w bot" where
  "fixNetworkIssue env fix s =
     (case js_includes fix ''retry'' of
        Inl e \<Rightarrow> (Thrown e, s)
      | Inr True \<Rightarrow>
          (case onPage (page_waitForTimeout env 5000) s of
             (Inl e, s1) \<Rightarrow> (Thrown e, s1)
           | (Inr u, s1) \<Rightarrow>
          (case onPage (page_reload env (Some 60000)) s1 of
             (Inl e, s2) \<Rightarrow> (Thrown e, s2)
           | (Inr u, s2) \<Rightarrow>
               (Returned \<lparr>strategy = JStr ''Network retry'', success = True,
                  newLocator = None, notes = ''Reloaded page after network delay''\<rparr>, s2)))
      | Inr False \<Rightarrow>
          (Returned \<lparr>strategy = JStr ''Network fix'', success = False,
             newLocator = None, notes = ''Network issue not resolved''\<rparr>, s))"

text \<open>
  \<^verbatim>\<open>fixCaptcha\<close> awaits a promise that only the callback of \<^verbatim>\<open>rl.question\<close> resolves, and
  that callback runs when a line arrives on standard input.
\<close>

definition fixCaptcha :: "'w env \<Rightarrow> json \<Rightarrow> 'w bot \<Rightarrow> FixAttempt outcome \<times> 'w bot" where
  "fixCaptcha env fix s =
     (case readline_question env (world s) of
        None \<Rightarrow> (Pending, s)
      | Some w \<Rightarrow>
          (Returned \<lparr>strategy = JStr ''Manual CAPTCHA resolution'', success = True,
             newLocator = None, notes = ''CAPTCHA resolved manually''\<rparr>, s\<lparr>world := w\<rparr>))"

subsection \<open>The fix dispatcher\<close>

definition applyFix :: "'w env \<Rightarrow> json \<Rightarrow> jsobject \<Rightarrow> string \<Rightarrow> 'w bot \<Rightarrow> FixAttempt outcome \<times> 'w bot" where
  "applyFix env fix analysis context s =
     (let t = map_of analysis ''errorType'' in
      if t = Some (JStr ''timeout'') then fixTimeout env fix context s
      else if t = Some (JStr ''locator'') then
        fixLocator env fix (map_of analysis ''alternativeLocators'') context s
      else if t = Some (JStr ''ui_change'') then fixUIChange env fix context s
      else if t = Some (JStr ''network'') then fixNetworkIssue env fix s
      else if t = Some (JStr ''captcha'') then fixCaptcha env fix s
      else (Returned \<lparr>strategy = fix, success = False,
              newLocator = None, notes = ''Unknown error type''\<rparr>, s))"

text \<open>
  The loop of \<^verbatim>\<open>attemptFix\<close>: a fix that throws is skipped, the first success is returned,
  its locator (when truthy) stored under the context.
\<close>

fun tryFixes :: "'w env \<Rightarrow> json list \<Rightarrow> jsobject \<Rightarrow> string \<Rightarrow> 'w bot \<Rightarrow> FixAttempt outcome \<times> 'w bot" where
  "tryFixes env [] analysis context s =
     (Returned \<lparr>strategy = JStr ''All fixes failed'', success = False,
        newLocator = None, notes = ''Manual intervention required''\<rparr>, s)"
| "tryFixes env (fix # fixes) analysis context s =
     (case applyFix env fix analysis context s of
        (Returned result, s') \<Rightarrow>
          if success result then
            (Returned result,
             if truthy (newLocator result)
             then s'\<lparr>successfulFixes := AList.update context (the (newLocator result)) (successfulFixes s')\<rparr>
             else s')
          else tryFixes env fixes analysis context s'
      | (Thrown fixError, s') \<Rightarrow> tryFixes env fixes analysis context s'
      | (Pending, s') \<Rightarrow> (Pending, s'))"

text \<open>
  Before the loop, \<^verbatim>\<open>attemptFix\<close> logs \<^verbatim>\<open>analysis.suggestedFixes[0]\<close>, which throws when
  the field is missing or null; the loop header throws when the field is not iterable.
  Both are outside the \<^verbatim>\<open>try\<close>.
\<close>

definition attemptFix :: "'w env \<Rightarrow> jserror \<Rightarrow> jsobject \<Rightarrow> string \<Rightarrow> 'w bot \<Rightarrow> FixAttempt outcome \<times> 'w bot" where
  "attemptFix env error analysis context s =
     (let fixes = map_of analysis ''suggestedFixes'' in
      if fixes = None \<or> fixes = Some JNull
      then (Thrown (TypeError ''Cannot read properties of undefined (reading 0)''), s)
      else case js_iterate fixes of
             Inl e \<Rightarrow> (Thrown e, s)
           | Inr fs \<Rightarrow> tryFixes env fs analysis context s)"

section \<open>The retrying executor (SelfHealingIntelligentNaukriBot.executeWithErrorRecovery)\<close>

text \<open>
  How one call of \<^verbatim>\<open>executeWithErrorRecovery\<close> ends: with the operation's result, with
  \<^verbatim>\<open>null\<close>, with an error thrown inside the loop body, with the error of the last line
  (\<^verbatim>\<open>Max retries (n) exceeded for operation: context\<close>), or, waiting for a call that never
  settles, not at all.
\<close>

datatype 'a completion =
    ReturnsResult 'a
  | ReturnsNull
  | ThrowsInLoop jserror
  | ThrowsMaxRetries jsnum string
  | NeverSettles

text \<open>
  \<^verbatim>\<open>errorTypes.set(errorType, (errorTypes.get(errorType) || 0) + 1)\<close>. A \<^verbatim>\<open>Map\<close> compares
  keys by identity unless they are primitive, so an array or object key, fresh from the
  parser, is never found and always adds an entry.
\<close>

fun primitive :: "json option \<Rightarrow> bool" where
  "primitive (Some (JArr xs)) = False"
| "primitive (Some (JObj kvs)) = False"
| "primitive v = True"

definition countErrorType :: "json option \<Rightarrow> (json option \<times> nat) list \<Rightarrow> (json option \<times> nat) list" where
  "countErrorType errorType' m =
     (if primitive errorType'
      then AList.update errorType' ((case map_of m errorType' of None \<Rightarrow> 0 | Some c \<Rightarrow> c) + 1) m
      else m @ [(errorType', 1)])"

definition wait :: "'w env \<Rightarrow> json option \<Rightarrow> 'w bot \<Rightarrow> 'w bot" where
  "wait env ms s = s\<lparr>world := setTimeout_wait env ms (world s)\<rparr>"

text \<open>
  The executor reads the fields of whatever object the classifier returned. Reading a
  field of \<^verbatim>\<open>null\<close> throws; a value that is not an object has none of the fields.
\<close>

fun properties :: "json \<Rightarrow> jsobject option" where
  "properties JNull = None"
| "properties (JObj obj) = Some obj"
| "properties j = Some []"

text \<open>
  The body of the \<^verbatim>\<open>for\<close> loop at the value \<open>attempt\<close> of its counter, followed by the rest
  of the loop. The operation is any action on the outside world that returns or throws
  an \<^verbatim>\<open>Error\<close>; it does not touch the counters of the session. The counter is a whole
  number that starts at 1 and is counted exactly (as a double is up to \<open>2\<^sup>5\<^sup>3\<close>); the bound
  is any number, so the two comparisons are those of numbers. Under an infinite bound
  only the body ends the loop: the loop is a partial function, and \<open>None\<close> is a call that
  retries for ever.
\<close>

partial_function (option) executeLoop ::
  "'w env \<Rightarrow> ('w \<Rightarrow> (jserror + 'a) \<times> 'w) \<Rightarrow> string \<Rightarrow> jsnum \<Rightarrow> nat \<Rightarrow> 'w bot
     \<Rightarrow> ('a completion \<times> 'w bot) option" where
  "executeLoop env operation context retries attempt s =
     (if num_le (Fin (of_nat attempt)) retries then
        (case onPage operation (s\<lparr>calls := calls s @ [OperationCall]\<rparr>) of
           (Inr result, s1) \<Rightarrow> Some (ReturnsResult result, s1)
         | (Inl err, s1) \<Rightarrow>
        (let s2 = s1\<lparr>totalErrors := totalErrors s1 + 1\<rparr> in
         if \<not> hasErrorAnalyzer s2 then Some (ThrowsInLoop err, s2)
         else
        (case analyzeError env err context (page_url env (world s2)) s2 of
           (Thrown e, s3) \<Rightarrow> Some (ThrowsInLoop e, s3)
         | (Pending, s3) \<Rightarrow> Some (NeverSettles, s3)
         | (Returned parsed, s3) \<Rightarrow>
        (case properties parsed of
           None \<Rightarrow> Some (ThrowsInLoop (TypeError ''Cannot read properties of null''), s3)
         | Some analysis \<Rightarrow>
        (let s4 = s3\<lparr>errorTypes := countErrorType (map_of analysis ''errorType'') (errorTypes s3)\<rparr> in
         if num_lt (Fin (of_nat attempt)) retries \<and> truthy (map_of analysis ''shouldRetry'') then
           (case attemptFix env err analysis context (s4\<lparr>calls := calls s4 @ [AttemptFixCall]\<rparr>) of
              (Thrown e, s5) \<Rightarrow> Some (ThrowsInLoop e, s5)
            | (Pending, s5) \<Rightarrow> Some (NeverSettles, s5)
            | (Returned fixResult, s5) \<Rightarrow>
                if success fixResult then
                  executeLoop env operation context retries (attempt + 1)
                    (wait env (map_of analysis ''retryDelay'') (s5\<lparr>fixedErrors := fixedErrors s5 + 1\<rparr>))
                else
                  executeLoop env operation context retries (attempt + 1)
                    (wait env (map_of analysis ''retryDelay'') s5))
         else if map_of analysis ''severity'' = Some (JStr ''high'') then Some (ThrowsInLoop err, s4)
         else Some (ReturnsNull, s4))))))
      else Some (ThrowsMaxRetries retries context, s))"

text \<open>
  \<^verbatim>\<open>const retries = maxRetries || this.credentials.jobPreferences.maxRetryAttempts\<close>: a
  missing argument and the argument 0 give the configured bound (so would \<^verbatim>\<open>NaN\<close>, which
  \<open>None\<close> stands for as well). The configured bound is the number that \<^verbatim>\<open>JSON.parse\<close> read
  from \<^verbatim>\<open>credentials.json\<close>, or 3 in place of 0 and of no number.
\<close>

definition retryBound :: "jsnum option \<Rightarrow> 'w bot \<Rightarrow> jsnum" where
  "retryBound maxRetries s =
     (case maxRetries of
        None \<Rightarrow> maxRetryAttempts s
      | Some n \<Rightarrow> if n = Fin 0 then maxRetryAttempts s else n)"

definition executeWithErrorRecovery ::
  "'w env \<Rightarrow> ('w \<Rightarrow> (jserror + 'a) \<times> 'w) \<Rightarrow> string \<Rightarrow> jsnum option \<Rightarrow> 'w bot
     \<Rightarrow> ('a completion \<times> 'w bot) option" where
  "executeWithErrorRecovery env operation context maxRetries s =
     (let retries = retryBound maxRetries s
      in executeLoop env operation context retries 1 s)"

section \<open>The job analyzer (LLMJobAnalyzer)\<close>

record JobAnalysis =
  shouldApply :: bool
  confidenceScore :: jsnum
  reasoning :: string
  matchedSkills :: "string list"
  concerns :: "string list"

definition jobObject :: "JobAnalysis \<Rightarrow> jsobject" where
  "jobObject a =
     [(''shouldApply'', JBool (shouldApply a)),
      (''confidenceScore'', JNum (confidenceScore a)),
      (''reasoning'', JStr (reasoning a)),
      (''matchedSkills'', JArr (map JStr (matchedSkills a))),
      (''concerns'', JArr (map JStr (concerns a)))]"

text \<open>The fields of the analyzer that \<^verbatim>\<open>analyzeJob\<close> reads; the constructor sets them.\<close>

record analyzer =
  userProfile :: string
  userSkills :: "string list"
  userKeywords :: "string list"

subsection \<open>Numbers and strings of the standard library\<close>

text \<open>\<^verbatim>\<open>Math.min\<close> and \<^verbatim>\<open>Math.max\<close> on numbers that are not \<^verbatim>\<open>NaN\<close>.\<close>

definition Math_min :: "jsnum \<Rightarrow> jsnum \<Rightarrow> jsnum" where
  "Math_min a b = (if num_le a b then a else b)"

definition Math_max :: "jsnum \<Rightarrow> jsnum \<Rightarrow> jsnum" where
  "Math_max a b = (if num_le a b then b else a)"

text \<open>
  The white space of \<^verbatim>\<open>\s\<close> and of \<^verbatim>\<open>trim\<close>: in Latin-1 the space, the characters 9 to 13
  and the no-break space 160.
\<close>

definition isSpace :: "char \<Rightarrow> bool" where
  "isSpace c =
     (c \<in> set [CHR '' '', CHR 0x09, CHR 0x0A, CHR 0x0B, CHR 0x0C, CHR 0x0D, CHR 0xA0])"

definition isDigit :: "char \<Rightarrow> bool" where
  "isDigit c = (let n = (of_char c :: nat) in 48 \<le> n \<and> n \<le> 57)"

definition trim :: "string \<Rightarrow> string" where
  "trim t = rev (dropWhile isSpace (rev (dropWhile isSpace t)))"

text \<open>\<^verbatim>\<open>t.indexOf(c)\<close> and \<^verbatim>\<open>t.lastIndexOf(c)\<close>; \<open>None\<close> is \<open>-1\<close>.\<close>

fun indexOf :: "string \<Rightarrow> char \<Rightarrow> nat option" where
  "indexOf [] c = None"
| "indexOf (x # xs) c = (if x = c then Some 0 else map_option Suc (indexOf xs c))"

definition lastIndexOf :: "string \<Rightarrow> char \<Rightarrow> nat option" where
  "lastIndexOf t c = map_option (\<lambda>i. length t - 1 - i) (indexOf (rev t) c)"

text \<open>\<^verbatim>\<open>t.substring(a, b)\<close> swaps its arguments when the first is the larger.\<close>

definition substring :: "string \<Rightarrow> nat \<Rightarrow> nat \<Rightarrow> string" where
  "substring t a b = take (max a b - min a b) (drop (min a b) t)"

fun join :: "string \<Rightarrow> string list \<Rightarrow> string" where
  "join sep [] = []"
| "join sep [x] = x"
| "join sep (x # y # ys) = x @ sep @ join sep (y # ys)"

definition digitChar :: "nat \<Rightarrow> char" where
  "digitChar d = char_of (48 + d)"

function showNat :: "nat \<Rightarrow> string" where
  "showNat n = (if n < 10 then [digitChar n] else showNat (n div 10) @ [digitChar (n mod 10)])"
  by pat_completeness auto
termination
  by (relation "measure (\<lambda>n. n)") auto

text \<open>\<^verbatim>\<open>parseInt\<close> of a non-empty run of decimal digits.\<close>

definition parseInt :: "string \<Rightarrow> nat" where
  "parseInt ds = foldl (\<lambda>n c. 10 * n + (of_char c - 48)) 0 ds"

text \<open>
  \<^verbatim>\<open>profile.match(/Experience:\s*(\d+)/i)\<close>: the first place where the word, in any letter
  case, is followed by optional white space and at least one digit; the group is the
  whole run of digits.
\<close>

fun experienceMatch :: "string \<Rightarrow> string option" where
  "experienceMatch [] = None"
| "experienceMatch (c # cs) =
     (let ds = takeWhile isDigit (dropWhile isSpace (drop 11 (c # cs)))
      in if prefix ''experience:'' (toLowerCase (c # cs)) \<and> ds \<noteq> [] then Some ds
         else experienceMatch cs)"

subsection \<open>localJobAnalysis\<close>

definition redFlags :: "string list" where
  "redFlags = [''manual testing only'', ''no automation'', ''entry level only'',
               ''intern'', ''trainee'', ''unpaid'']"

definition localJobAnalysis :: "analyzer \<Rightarrow> string \<Rightarrow> string \<Rightarrow> string \<Rightarrow> string \<Rightarrow> JobAnalysis" where
  "localJobAnalysis this jobTitle company jobDescription salary =
     (let jobText = toLowerCase (jobTitle @ '' '' @ jobDescription);
          matched = filter (\<lambda>skill. str_includes jobText skill) (userSkills this);
          skillMatches = length matched;
          score1 = 15 * int skillMatches;
          concerns1 = (if skillMatches > 0 then [] else [''No direct skill matches found'']);
          reasoning1 =
            (if skillMatches > 0
             then [''Found '' @ showNat skillMatches @ '' matching skills: '' @ join '', '' matched]
             else [''Limited skill alignment detected'']);
          keywordMatches = length (filter (\<lambda>keyword. str_includes jobText keyword) (userKeywords this));
          score2 = score1 + 5 * int keywordMatches;
          reasoning2 =
            (if keywordMatches > 0
             then reasoning1 @ [''Found '' @ showNat keywordMatches @ '' relevant keywords'']
             else reasoning1);
          userExperience =
            (case experienceMatch (userProfile this) of None \<Rightarrow> 0 | Some ds \<Rightarrow> parseInt ds);
          (score3, reasoning3) =
            (if str_includes jobText ''senior'' \<and> userExperience \<ge> 5
             then (score2 + 10, reasoning2 @ [''Good match for senior-level experience''])
             else if str_includes jobText ''junior'' \<and> userExperience < 3
             then (score2 + 10, reasoning2 @ [''Appropriate for junior-level experience''])
             else if str_includes jobText ''lead'' \<and> userExperience \<ge> 7
             then (score2 + 15, reasoning2 @ [''Suitable for leadership role experience''])
             else (score2, reasoning2));
          flagged = filter (\<lambda>redFlag. str_includes jobText redFlag) redFlags;
          concerns2 = concerns1 @ map (\<lambda>redFlag. ''Contains red flag: '' @ redFlag) flagged;
          score4 = score3 - 20 * int (length flagged);
          confidence = Math_max (Fin 0) (Math_min (Fin 100) (Fin (of_int score4)))
      in \<lparr>shouldApply = (num_le (Fin 60) confidence \<and> length matched \<ge> 2),
          confidenceScore = confidence,
          reasoning = join ''. '' reasoning3,
          matchedSkills = matched,
          concerns = concerns2\<rparr>)"

subsection \<open>analyzeJob\<close>

text \<open>
  The checks of \<^verbatim>\<open>analyzeJob\<close> on the parsed value. Reading a field of \<^verbatim>\<open>null\<close> throws
  inside the \<^verbatim>\<open>try\<close>, which ends in the same \<^verbatim>\<open>catch\<close> as a failed check.
\<close>

definition validJobAnalysis :: "json \<Rightarrow> bool" where
  "validJobAnalysis v =
     (case v of
        JObj obj \<Rightarrow>
          (case map_of obj ''shouldApply'' of Some (JBool b) \<Rightarrow> True | _ \<Rightarrow> False) \<and>
          (case map_of obj ''confidenceScore'' of Some (JNum n) \<Rightarrow> True | _ \<Rightarrow> False) \<and>
          (case map_of obj ''reasoning'' of Some (JStr t) \<Rightarrow> True | _ \<Rightarrow> False) \<and>
          (case map_of obj ''matchedSkills'' of Some (JArr xs) \<Rightarrow> True | _ \<Rightarrow> False) \<and>
          (case map_of obj ''concerns'' of Some (JArr xs) \<Rightarrow> True | _ \<Rightarrow> False)
      | _ \<Rightarrow> False)"

text \<open>
  \<^verbatim>\<open>analysis.confidenceScore = Math.max(0, Math.min(100, analysis.confidenceScore))\<close>, run
  after the checks, so on an object whose field is a number.
\<close>

definition clampConfidence :: "json \<Rightarrow> json" where
  "clampConfidence v =
     (case v of
        JObj obj \<Rightarrow>
          (case map_of obj ''confidenceScore'' of
             Some (JNum n) \<Rightarrow>
               JObj (AList.update ''confidenceScore''
                       (JNum (Math_max (Fin 0) (Math_min (Fin 100) n))) obj)
           | _ \<Rightarrow> v)
      | _ \<Rightarrow> v)"

definition analyzeJob ::
  "'w env \<Rightarrow> analyzer \<Rightarrow> string \<Rightarrow> string \<Rightarrow> string \<Rightarrow> string \<Rightarrow> 'w \<Rightarrow> json \<times> 'w" where
  "analyzeJob env this jobTitle company jobDescription salary w =
     (let local = JObj (jobObject (localJobAnalysis this jobTitle company jobDescription salary));
          (r, w') = fetch_chat env
             (JobPrompt (userProfile this) jobTitle company salary jobDescription) w
      in case r of
           Inl error \<Rightarrow> (local, w')
         | Inr response \<Rightarrow>
             (let cleanedResponse = trim response in
              case (indexOf cleanedResponse CHR ''{'', lastIndexOf cleanedResponse CHR ''}'') of
                (Some jsonStart, Some lastBrace) \<Rightarrow>
                  (case JSON_parse env (substring cleanedResponse jsonStart (lastBrace + 1)) of
                     None \<Rightarrow> (local, w')
                   | Some analysis \<Rightarrow>
                       if validJobAnalysis analysis then (clampConfidence analysis, w')
                       else (local, w'))
              | _ \<Rightarrow> (local, w')))"

section \<open>Concrete sessions\<close>

text \<open>
  A session in which the oracle is unreachable, no line arrives on standard input, the
  page answers every read and shows no element. The outside world is a counter of the
  operation's invocations.
\<close>

definition unreachable :: jserror where
  "unreachable = Error ''fetch failed'' []"

definition offlineEnv :: "nat env" where
  "offlineEnv =
     \<lparr>page_title = (\<lambda>w. (Inr ''Naukri'', w)),
      page_content = (\<lambda>w. (Inr [], w)),
      page_url = (\<lambda>w. ''https://www.naukri.com/''),
      page_evaluate_visible = (\<lambda>w. (Inr [], w)),
      page_waitForTimeout = (\<lambda>ms w. (Inr (), w)),
      page_waitForLoadState = (\<lambda>ms w. (Inr (), w)),
      page_reload = (\<lambda>ms w. (Inr (), w)),
      page_screenshot = (\<lambda>w. (Inr (), w)),
      locator_isVisible = (\<lambda>l ms w. (Inr False, w)),
      llm_chat = (\<lambda>p w. (Inl unreachable, w)),
      fetch_chat = (\<lambda>p w. (Inl unreachable, w)),
      JSON_parse = (\<lambda>t. None),
      String_of = (\<lambda>j. []),
      String_match = (\<lambda>pattern t. []),
      readline_question = (\<lambda>w. None),
      setTimeout_wait = (\<lambda>ms w. w)\<rparr>"

text \<open>
  The values \<^verbatim>\<open>JSON.parse\<close> gives to the texts that the sessions below use.
\<close>

definition parseTable :: "string \<Rightarrow> json option" where
  "parseTable = map_of
     [(''{}'', JObj []),
      (''{\"shouldRetry\":false,\"severity\":\"high\"}'',
         JObj [(''shouldRetry'', JBool False), (''severity'', JStr ''high'')]),
      (''{\"shouldRetry\":false,\"severity\":\"low\"}'',
         JObj [(''shouldRetry'', JBool False), (''severity'', JStr ''low'')]),
      (''{\"errorType\":\"captcha\",\"shouldRetry\":true,\"suggestedFixes\":[\"solve captcha\"]}'',
         JObj [(''errorType'', JStr ''captcha''), (''shouldRetry'', JBool True),
               (''suggestedFixes'', JArr [JStr ''solve captcha''])]),
      (''{\"shouldApply\":true,\"confidenceScore\":250,\"reasoning\":\"\",\"matchedSkills\":[],\"concerns\":[]}'',
         JObj [(''shouldApply'', JBool True), (''confidenceScore'', JNum (Fin 250)),
               (''reasoning'', JStr []), (''matchedSkills'', JArr []), (''concerns'', JArr [])])]"

text \<open>A session in which the oracle answers every prompt with the given text.\<close>

definition replyingEnv :: "string \<Rightarrow> nat env" where
  "replyingEnv reply =
     offlineEnv\<lparr>llm_chat := (\<lambda>p w. (Inr reply, w)),
                fetch_chat := (\<lambda>p w. (Inr reply, w)),
                JSON_parse := parseTable\<rparr>"

text \<open>A session in which every element is visible and the oracle is unreachable.\<close>

definition visibleEnv :: "nat env" where
  "visibleEnv = offlineEnv\<lparr>locator_isVisible := (\<lambda>l ms w. (Inr True, w))\<rparr>"

text \<open>A session in which somebody presses Enter.\<close>

definition attendedEnv :: "nat env" where
  "attendedEnv = offlineEnv\<lparr>readline_question := (\<lambda>w. Some w)\<rparr>"

definition session0 :: "nat bot" where
  "session0 =
     \<lparr>world = 0, calls = [], maxRetryAttempts = Fin 3, totalErrors = 0, fixedErrors = 0,
      errorTypes = [], hasErrorAnalyzer = True, errorHistory = [], successfulFixes = []\<rparr>"

text \<open>An operation that throws the given message on its first \<open>k\<close> calls and then returns.\<close>

definition failsFirst :: "nat \<Rightarrow> string \<Rightarrow> 'a \<Rightarrow> nat \<Rightarrow> (jserror + 'a) \<times> nat" where
  "failsFirst k msg v w = (if w < k then Inl (Error msg []) else Inr v, w + 1)"

text \<open>
  A counter beside the outside world. \<open>counting env\<close> is the page, oracle and console of
  \<open>env\<close> acting on the first component; they leave the counter alone.
\<close>

definition beside :: "('w \<Rightarrow> 'r \<times> 'w) \<Rightarrow> 'w \<times> nat \<Rightarrow> 'r \<times> ('w \<times> nat)" where
  "beside f = (\<lambda>(w, i). case f w of (r, w') \<Rightarrow> (r, (w', i)))"

definition counting :: "'w env \<Rightarrow> ('w \<times> nat) env" where
  "counting env =
     \<lparr>page_title = beside (page_title env),
      page_content = beside (page_content env),
      page_url = (\<lambda>(w, i). page_url env w),
      page_evaluate_visible = beside (page_evaluate_visible env),
      page_waitForTimeout = (\<lambda>ms. beside (page_waitForTimeout env ms)),
      page_waitForLoadState = (\<lambda>ms. beside (page_waitForLoadState env ms)),
      page_reload = (\<lambda>ms. beside (page_reload env ms)),
      page_screenshot = beside (page_screenshot env),
      locator_isVisible = (\<lambda>l ms. beside (locator_isVisible env l ms)),
      llm_chat = (\<lambda>p. beside (llm_chat env p)),
      fetch_chat = (\<lambda>p. beside (fetch_chat env p)),
      JSON_parse = JSON_parse env,
      String_of = String_of env,
      String_match = String_match env,
      readline_question = (\<lambda>(w, i). map_option (\<lambda>w'. (w', i)) (readline_question env w)),
      setTimeout_wait = (\<lambda>ms (w, i). (setTimeout_wait env ms w, i))\<rparr>"

text \<open>
  The operation of \<open>failsFirst\<close> beside any outside world: it throws on its first \<open>k\<close> calls,
  then returns, and counts its calls.
\<close>

definition failsFirstCounted :: "nat \<Rightarrow> string \<Rightarrow> 'a \<Rightarrow> 'w \<times> nat \<Rightarrow> (jserror + 'a) \<times> ('w \<times> nat)" where
  "failsFirstCounted k msg v = (\<lambda>(w, i). (if i < k then Inl (Error msg []) else Inr v, (w, i + 1)))"

text \<open>A session that starts with the counter at zero.\<close>

definition countedSession :: "(nat \<times> nat) bot" where
  "countedSession =
     \<lparr>world = (0, 0), calls = [], maxRetryAttempts = Fin 3, totalErrors = 0, fixedErrors = 0,
      errorTypes = [], hasErrorAnalyzer = True, errorHistory = [], successfulFixes = []\<rparr>"

text \<open>The object has a confidence score, a number from 0 to 100.\<close>

definition confidenceInRange :: "json \<Rightarrow> bool" where
  "confidenceInRange v =
     (case v of
        JObj obj \<Rightarrow>
          (case map_of obj ''confidenceScore'' of
             Some (JNum n) \<Rightarrow> num_le (Fin 0) n \<and> num_le n (Fin 100)
           | _ \<Rightarrow> False)
      | _ \<Rightarrow> False)"

text \<open>A candidate with two skills and a profile that names no experience.\<close>

definition tester :: analyzer where
  "tester = \<lparr>userProfile = ''Skills: selenium, java'', userSkills = [''selenium'', ''java''],
              userKeywords = []\<rparr>"

text \<open>A classification of kind \<^verbatim>\<open>locator\<close> with the given candidates.\<close>

definition locatorAnalysis :: "string list \<Rightarrow> jsobject" where
  "locatorAnalysis candidates =
     toObject \<lparr>errorType = locator, severity = high,
       suggestedFixes = [''try alternative locators''],
       alternativeLocators = candidates, shouldRetry = True, retryDelay = 2000\<rparr>"

text \<open>The number of invocations of the operation that the log records.\<close>

definition opCalls :: "'w bot \<Rightarrow> nat" where
  "opCalls s = length (filter (\<lambda>c. c = OperationCall) (calls s))"

section \<open>Properties\<close>

subsection \<open>Only the executor invokes the operation\<close>

lemma onPage_opCalls: "onPage f s = (r, s') \<Longrightarrow> opCalls s' = opCalls s"
  by (auto simp: onPage_def opCalls_def split: prod.splits)

lemma firstVisible_opCalls: "firstVisible env ms ls s = (r, s') \<Longrightarrow> opCalls s' = opCalls s"
proof (induction ls arbitrary: s)
  case Nil
  then show ?case by simp
next
  case (Cons l ls)
  obtain v s1 where p: "onPage (locator_isVisible env l ms) s = (v, s1)"
    by (cases "onPage (locator_isVisible env l ms) s")
  let ?s2 = "s1\<lparr>calls := calls s1 @ [IsVisibleCall l ms]\<rparr>"
  have a: "opCalls ?s2 = opCalls s"
    using onPage_opCalls [OF p] by (simp add: opCalls_def)
  show ?case
  proof (cases "v = Inr True")
    case True
    with Cons.prems p a show ?thesis by (auto simp: Let_def)
  next
    case False
    with Cons.prems p have "firstVisible env ms ls ?s2 = (r, s')" by (simp add: Let_def)
    from Cons.IH [OF this] a show ?thesis by simp
  qed
qed

lemma fixTimeout_opCalls: "fixTimeout env fix context s = (r, s') \<Longrightarrow> opCalls s' = opCalls s"
  unfolding fixTimeout_def
  by (auto split: prod.splits sum.splits bool.splits dest: onPage_opCalls)

lemma fixLocator_opCalls: "fixLocator env fix alts context s = (r, s') \<Longrightarrow> opCalls s' = opCalls s"
proof -
  assume a: "fixLocator env fix alts context s = (r, s')"
  show ?thesis
  proof (cases "js_iterate alts")
    case (Inl e)
    with a show ?thesis by (simp add: fixLocator_def)
  next
    case (Inr cands)
    obtain r1 s1 where f1: "firstVisible env 5000 cands s = (r1, s1)"
      by (cases "firstVisible env 5000 cands s")
    obtain r2 s2 where f2:
      "(if str_includes context ''login''
        then firstVisible env 2000 (map JStr loginLocators) s1 else (None, s1)) = (r2, s2)"
      by (cases "(if str_includes context ''login''
        then firstVisible env 2000 (map JStr loginLocators) s1 else (None, s1))")
    obtain r3 s3 where f3:
      "(if str_includes context ''job'' \<or> str_includes context ''apply''
        then firstVisible env 2000 (map JStr jobLocators) s2 else (None, s2)) = (r3, s3)"
      by (cases "(if str_includes context ''job'' \<or> str_includes context ''apply''
        then firstVisible env 2000 (map JStr jobLocators) s2 else (None, s2))")
    have o1: "opCalls s1 = opCalls s" using f1 by (rule firstVisible_opCalls)
    have o2: "opCalls s2 = opCalls s1"
      using f2 by (auto split: if_splits dest: firstVisible_opCalls)
    have o3: "opCalls s3 = opCalls s2"
      using f3 by (auto split: if_splits dest: firstVisible_opCalls)
    have "s' = s1 \<or> s' = s2 \<or> s' = s3"
      using a Inr f1 f2 f3 unfolding fixLocator_def
      by (auto split: option.splits)
    with o1 o2 o3 show ?thesis by auto
  qed
qed

lemma fixUIChange_opCalls: "fixUIChange env fix context s = (r, s') \<Longrightarrow> opCalls s' = opCalls s"
  unfolding fixUIChange_def
  by (auto simp: Let_def split: prod.splits sum.splits option.splits
      dest!: onPage_opCalls firstVisible_opCalls)

lemma fixNetworkIssue_opCalls: "fixNetworkIssue env fix s = (r, s') \<Longrightarrow> opCalls s' = opCalls s"
  unfolding fixNetworkIssue_def
  by (auto split: prod.splits sum.splits bool.splits dest!: onPage_opCalls)

lemma fixCaptcha_opCalls: "fixCaptcha env fix s = (r, s') \<Longrightarrow> opCalls s' = opCalls s"
  unfolding fixCaptcha_def
  by (auto simp: opCalls_def split: option.splits)

lemma applyFix_opCalls: "applyFix env fix analysis context s = (r, s') \<Longrightarrow> opCalls s' = opCalls s"
  unfolding applyFix_def Let_def
  by (auto split: if_splits
      dest: fixTimeout_opCalls fixLocator_opCalls fixUIChange_opCalls fixNetworkIssue_opCalls
        fixCaptcha_opCalls)

lemma tryFixes_opCalls: "tryFixes env fs analysis context s = (r, s') \<Longrightarrow> opCalls s' = opCalls s"
proof (induction fs arbitrary: s)
  case Nil
  then show ?case by simp
next
  case (Cons f fs)
  obtain r1 s1 where a: "applyFix env f analysis context s = (r1, s1)"
    by (cases "applyFix env f analysis context s")
  have o: "opCalls s1 = opCalls s" using a by (rule applyFix_opCalls)
  show ?case
  proof (cases r1)
    case (Returned result)
    show ?thesis
    proof (cases "success result")
      case True
      with Cons.prems a Returned o show ?thesis
        by (auto simp: opCalls_def split: if_splits)
    next
      case False
      with Cons.prems a Returned have "tryFixes env fs analysis context s1 = (r, s')" by simp
      from Cons.IH [OF this] o show ?thesis by simp
    qed
  next
    case (Thrown e)
    with Cons.prems a have "tryFixes env fs analysis context s1 = (r, s')" by simp
    from Cons.IH [OF this] o show ?thesis by simp
  next
    case Pending
    with Cons.prems a o show ?thesis by simp
  qed
qed

lemma attemptFix_opCalls: "attemptFix env error analysis context s = (r, s') \<Longrightarrow> opCalls s' = opCalls s"
  unfolding attemptFix_def Let_def
  by (auto split: if_splits sum.splits dest: tryFixes_opCalls)

lemma analyzeError_calls: "analyzeError env error context url s = (r, s') \<Longrightarrow> calls s' = calls s"
  by (auto simp: analyzeError_def logError_def Let_def split: prod.splits sum.splits option.splits)

subsection \<open>One iteration of the retry loop\<close>

text \<open>
  An iteration that starts within the bound invokes the operation once; then either the
  call ends, and not with the error of the last line, or the counter is still below the
  bound and the loop goes on with the next value of the counter.
\<close>

lemma wait_opCalls: "opCalls (wait env ms s) = opCalls s"
  by (simp add: wait_def opCalls_def)

lemma executeLoop_step:
  assumes le: "num_le (Fin (of_nat attempt)) retries"
  shows "(\<exists>r s'. executeLoop env operation context retries attempt s = Some (r, s') \<and>
            opCalls s' = opCalls s + 1 \<and> (\<forall>n c. r \<noteq> ThrowsMaxRetries n c)) \<or>
         (num_lt (Fin (of_nat attempt)) retries \<and>
          (\<exists>s''. opCalls s'' = opCalls s + 1 \<and>
             executeLoop env operation context retries attempt s =
             executeLoop env operation context retries (attempt + 1) s''))"
proof -
  let ?s0 = "s\<lparr>calls := calls s @ [OperationCall]\<rparr>"
  obtain ro s1 where op: "onPage operation ?s0 = (ro, s1)"
    by (cases "onPage operation ?s0")
  have o1: "opCalls s1 = opCalls s + 1"
    using onPage_opCalls [OF op] by (simp add: opCalls_def)
  note unfold = executeLoop.simps [of env operation "context" retries attempt s]
  show ?thesis
  proof (cases ro)
    case (Inr result)
    with le op o1 show ?thesis by (subst unfold) simp
  next
    case (Inl err)
    let ?s2 = "s1\<lparr>totalErrors := totalErrors s1 + 1\<rparr>"
    have o2: "opCalls ?s2 = opCalls s + 1" using o1 by (simp add: opCalls_def)
    show ?thesis
    proof (cases "hasErrorAnalyzer s1")
      case False
      with le op Inl o2 show ?thesis by (subst unfold) (simp add: Let_def)
    next
      case True
      obtain ra s3 where an: "analyzeError env err context (page_url env (world s1)) ?s2 = (ra, s3)"
        by (cases "analyzeError env err context (page_url env (world s1)) ?s2")
      have o3: "opCalls s3 = opCalls s + 1"
        using analyzeError_calls [OF an] o2 by (simp add: opCalls_def)
      show ?thesis
      proof (cases ra)
        case (Thrown e)
        with le op Inl True an o3 show ?thesis by (subst unfold) (simp add: Let_def)
      next
        case Pending
        with le op Inl True an o3 show ?thesis by (subst unfold) (simp add: Let_def)
      next
        case (Returned parsed)
        show ?thesis
        proof (cases "properties parsed")
          case None
          with le op Inl True an Returned o3 show ?thesis
            by (subst unfold) (simp add: Let_def)
        next
          case (Some analysis)
          let ?s4 = "s3\<lparr>errorTypes := countErrorType (map_of analysis ''errorType'') (errorTypes s3)\<rparr>"
          have o4: "opCalls ?s4 = opCalls s + 1" using o3 by (simp add: opCalls_def)
          show ?thesis
          proof (cases "num_lt (Fin (of_nat attempt)) retries \<and> truthy (map_of analysis ''shouldRetry'')")
            case False
            with le op Inl True an Returned Some o4 show ?thesis
              by (subst unfold) (auto simp: Let_def)
          next
            case retry: True
            let ?s4' = "?s4\<lparr>calls := calls ?s4 @ [AttemptFixCall]\<rparr>"
            obtain rf s5 where fx: "attemptFix env err analysis context ?s4' = (rf, s5)"
              by (cases "attemptFix env err analysis context ?s4'")
            have o5: "opCalls s5 = opCalls s + 1"
              using attemptFix_opCalls [OF fx] o3 by (simp add: opCalls_def)
            show ?thesis
            proof (cases rf)
              case (Thrown e)
              with le op Inl True an Returned Some retry fx o5 show ?thesis
                by (subst unfold) (simp add: Let_def)
            next
              case Pending
              with le op Inl True an Returned Some retry fx o5 show ?thesis
                by (subst unfold) (simp add: Let_def)
            next
              case fixed: (Returned fixResult)
              let ?next = "if success fixResult
                 then wait env (map_of analysis ''retryDelay'') (s5\<lparr>fixedErrors := fixedErrors s5 + 1\<rparr>)
                 else wait env (map_of analysis ''retryDelay'') s5"
              have on: "opCalls ?next = opCalls s + 1"
                using o5 by (simp add: wait_opCalls) (simp add: opCalls_def)
              have "executeLoop env operation context retries attempt s =
                  executeLoop env operation context retries (attempt + 1) ?next"
                using le op Inl True an Returned Some retry fx fixed
                by (subst unfold) (simp add: Let_def)
              with retry on show ?thesis by blast
            qed
          qed
        qed
      qed
    qed
  qed
qed

text \<open>When the counter has passed the bound, the call ends with the error of the last line.\<close>

lemma executeLoop_exhausted:
  "\<not> num_le (Fin (of_nat attempt)) retries \<Longrightarrow>
   executeLoop env operation context retries attempt s =
     Some (ThrowsMaxRetries retries context, s)"
  by (subst executeLoop.simps) simp

text \<open>
  Under a finite bound the loop ends, after at most as many invocations as there are
  whole numbers from the counter to the bound.
\<close>

lemma within_floor: "of_nat n \<le> (q :: rat) \<longleftrightarrow> 0 \<le> q \<and> n \<le> nat \<lfloor>q\<rfloor>"
proof
  assume a: "of_nat n \<le> q"
  have "(0 :: rat) \<le> of_nat n" by simp
  with a have "0 \<le> q" by linarith
  moreover from a have "int n \<le> \<lfloor>q\<rfloor>" by (simp add: le_floor_iff)
  ultimately show "0 \<le> q \<and> n \<le> nat \<lfloor>q\<rfloor>" by simp
next
  assume a: "0 \<le> q \<and> n \<le> nat \<lfloor>q\<rfloor>"
  then have "0 \<le> \<lfloor>q\<rfloor>" by simp
  with a have "int n \<le> \<lfloor>q\<rfloor>" by arith
  then show "of_nat n \<le> q" by (simp add: le_floor_iff)
qed

lemma executeLoop_opCalls:
  "\<exists>r s'. executeLoop env operation context (Fin q) attempt s = Some (r, s') \<and>
     opCalls s' \<le> opCalls s + (Suc (nat \<lfloor>q\<rfloor>) - attempt)"
proof (induction "Suc (nat \<lfloor>q\<rfloor>) - attempt" arbitrary: attempt s)
  case 0
  then have "\<not> num_le (Fin (of_nat attempt)) (Fin q)" by (simp add: within_floor)
  then show ?case by (simp add: executeLoop_exhausted)
next
  case (Suc k)
  show ?case
  proof (cases "num_le (Fin (of_nat attempt)) (Fin q)")
    case False
    then show ?thesis by (simp add: executeLoop_exhausted)
  next
    case le: True
    from executeLoop_step [OF le, of env operation "context" s] show ?thesis
    proof
      assume "\<exists>r s'. executeLoop env operation context (Fin q) attempt s = Some (r, s') \<and>
          opCalls s' = opCalls s + 1 \<and> (\<forall>n c. r \<noteq> ThrowsMaxRetries n c)"
      then obtain r s' where
        "executeLoop env operation context (Fin q) attempt s = Some (r, s')"
        "opCalls s' = opCalls s + 1" by blast
      moreover have "1 \<le> Suc (nat \<lfloor>q\<rfloor>) - attempt" using Suc.hyps(2) by simp
      ultimately show ?thesis by simp
    next
      assume "num_lt (Fin (of_nat attempt)) (Fin q) \<and>
        (\<exists>s''. opCalls s'' = opCalls s + 1 \<and>
           executeLoop env operation context (Fin q) attempt s =
           executeLoop env operation context (Fin q) (attempt + 1) s'')"
      then obtain s'' where o: "opCalls s'' = opCalls s + 1"
        and nx: "executeLoop env operation context (Fin q) attempt s =
           executeLoop env operation context (Fin q) (attempt + 1) s''" by blast
      have "k = Suc (nat \<lfloor>q\<rfloor>) - (attempt + 1)" using Suc.hyps(2) by simp
      from Suc.hyps(1) [OF this, of s''] obtain r s' where
        "executeLoop env operation context (Fin q) (attempt + 1) s'' = Some (r, s')"
        "opCalls s' \<le> opCalls s'' + (Suc (nat \<lfloor>q\<rfloor>) - (attempt + 1))" by blast
      with nx o Suc.hyps(2) show ?thesis by simp
    qed
  qed
qed

text \<open>
  The error of the last line comes from the loop's header alone: when a call ends with
  it, either the header fails at the first value of the counter, or some value of the
  counter is below the bound and the next one is above it.
\<close>

lemma executeLoop_exhausted_only:
  assumes "executeLoop env operation ctx retries attempt s = Some y"
  shows "\<forall>n c. fst y = ThrowsMaxRetries n c \<longrightarrow>
     n = retries \<and> c = ctx \<and>
     (\<not> num_le (Fin (of_nat attempt)) retries \<or>
      (\<exists>a. num_lt (Fin (of_nat a)) retries \<and> \<not> num_le (Fin (of_nat (a + 1))) retries))"
proof (rule executeLoop.raw_induct [where P = "\<lambda>env operation ctx retries attempt s y.
     \<forall>n c. fst y = ThrowsMaxRetries n c \<longrightarrow>
     n = retries \<and> c = ctx \<and>
     (\<not> num_le (Fin (of_nat attempt)) retries \<or>
      (\<exists>a. num_lt (Fin (of_nat a)) retries \<and> \<not> num_le (Fin (of_nat (a + 1))) retries))",
     OF _ assms], goal_cases)
  case (1 loop env operation ctx retries attempt s y)
  show ?case
  proof (cases "num_le (Fin (of_nat attempt)) retries")
    case False
    with 1(2) show ?thesis by auto
  next
    case le: True
    show ?thesis
    proof (intro allI impI)
      fix n c assume thrown: "fst y = ThrowsMaxRetries n c"
      have "\<exists>s''. num_lt (Fin (of_nat attempt)) retries \<and>
          loop env operation ctx retries (attempt + 1) s'' = Some y"
        using 1(2) thrown le
        by (auto simp: Let_def split: prod.splits sum.splits outcome.splits option.splits
            if_splits)
      then obtain s'' where lt: "num_lt (Fin (of_nat attempt)) retries"
        and nx: "loop env operation ctx retries (attempt + 1) s'' = Some y" by blast
      from 1(1) [OF nx] thrown lt
      show "n = retries \<and> c = ctx \<and>
        (\<not> num_le (Fin (of_nat attempt)) retries \<or>
         (\<exists>a. num_lt (Fin (of_nat a)) retries \<and> \<not> num_le (Fin (of_nat (a + 1))) retries))"
        by auto
    qed
  qed
qed

text \<open>A number strictly between two neighbouring whole numbers is not whole.\<close>

lemma between_not_whole:
  assumes "of_nat a < (q :: rat)" and "\<not> of_nat (a + 1) \<le> q"
  shows "q \<notin> \<int>"
proof
  assume "q \<in> \<int>"
  then obtain z where q: "q = of_int z" by (rule Ints_cases)
  from assms(1) have "(of_int (int a) :: rat) < of_int z" unfolding q by simp
  then have "int a < z" by (simp only: of_int_less_iff)
  moreover from assms(2) have "(of_int z :: rat) < of_int (int (a + 1))" unfolding q by simp
  then have "z < int (a + 1)" by (simp only: of_int_less_iff)
  ultimately show False by simp
qed

lemma header_fails_only:
  assumes "executeLoop env operation ctx retries 1 s = Some (ThrowsMaxRetries n c, t)"
  shows "n = retries \<and> c = ctx \<and>
     (num_lt retries (Fin 1) \<or> (\<exists>q. retries = Fin q \<and> q \<notin> \<int>))"
proof -
  from executeLoop_exhausted_only [OF assms]
  have n: "n = retries" and c: "c = ctx"
    and header: "\<not> num_le (Fin (of_nat 1)) retries \<or>
      (\<exists>a. num_lt (Fin (of_nat a)) retries \<and> \<not> num_le (Fin (of_nat (a + 1))) retries)"
    by simp_all
  from header have "num_lt retries (Fin 1) \<or> (\<exists>q. retries = Fin q \<and> q \<notin> \<int>)"
  proof
    assume "\<not> num_le (Fin (of_nat 1)) retries"
    then have "num_lt retries (Fin 1)" by (cases retries) simp_all
    then show ?thesis ..
  next
    assume "\<exists>a. num_lt (Fin (of_nat a)) retries \<and> \<not> num_le (Fin (of_nat (a + 1))) retries"
    then obtain a where lt: "num_lt (Fin (of_nat a)) retries"
      and gt: "\<not> num_le (Fin (of_nat (a + 1))) retries" by blast
    from lt gt obtain q where q: "retries = Fin q" by (cases retries) simp_all
    from lt gt have "of_nat a < q" "\<not> of_nat (a + 1) \<le> q" unfolding q by simp_all
    then have "q \<notin> \<int>" by (rule between_not_whole)
    with q show ?thesis by blast
  qed
  with n c show ?thesis by blast
qed

subsection \<open>Running the offline session\<close>

lemma offline_sel [simp]:
  "page_title offlineEnv = (\<lambda>w. (Inr ''Naukri'', w))"
  "page_content offlineEnv = (\<lambda>w. (Inr [], w))"
  "page_url offlineEnv = (\<lambda>w. ''https://www.naukri.com/'')"
  "page_evaluate_visible offlineEnv = (\<lambda>w. (Inr [], w))"
  "page_waitForTimeout offlineEnv = (\<lambda>ms w. (Inr (), w))"
  "page_waitForLoadState offlineEnv = (\<lambda>ms w. (Inr (), w))"
  "page_reload offlineEnv = (\<lambda>ms w. (Inr (), w))"
  "page_screenshot offlineEnv = (\<lambda>w. (Inr (), w))"
  "locator_isVisible offlineEnv = (\<lambda>l ms w. (Inr False, w))"
  "llm_chat offlineEnv = (\<lambda>p w. (Inl unreachable, w))"
  "fetch_chat offlineEnv = (\<lambda>p w. (Inl unreachable, w))"
  "JSON_parse offlineEnv = (\<lambda>t. None)"
  "readline_question offlineEnv = (\<lambda>w. None)"
  "setTimeout_wait offlineEnv = (\<lambda>ms w. w)"
  by (simp_all add: offlineEnv_def)

lemma analyzeError_offline:
  "analyzeError offlineEnv error context url s =
     (Returned (JObj (toObject (fallbackErrorAnalysis (message error) context))), s)"
  by (simp add: analyzeError_def askOracle_def Let_def)

lemma fallback_Timeout:
  "fallbackErrorAnalysis ''Timeout 30000ms exceeded'' context =
     \<lparr>errorType = unknown, severity = medium,
      suggestedFixes = [''retry operation'', ''wait and retry''],
      alternativeLocators = [], shouldRetry = True, retryDelay = 3000\<rparr>"
  by (simp add: fallbackErrorAnalysis_def)

lemma attemptFix_unknown:
  "attemptFix env error
     (toObject \<lparr>errorType = unknown, severity = medium,
      suggestedFixes = [''retry operation'', ''wait and retry''],
      alternativeLocators = [], shouldRetry = True, retryDelay = 3000\<rparr>) context s =
   (Returned \<lparr>strategy = JStr ''All fixes failed'', success = False,
        newLocator = None, notes = ''Manual intervention required''\<rparr>, s)"
  by (simp add: attemptFix_def toObject_def applyFix_def Let_def)

lemma toObject_fields [simp]:
  "map_of (toObject a) ''errorType'' = Some (JStr (errorTypeName (errorType a)))"
  "map_of (toObject a) ''severity'' = Some (JStr (severityName (severity a)))"
  "map_of (toObject a) ''suggestedFixes'' = Some (JArr (map JStr (suggestedFixes a)))"
  "map_of (toObject a) ''alternativeLocators'' = Some (JArr (map JStr (alternativeLocators a)))"
  "map_of (toObject a) ''shouldRetry'' = Some (JBool (shouldRetry a))"
  "map_of (toObject a) ''retryDelay'' = Some (JNum (Fin (of_nat (retryDelay a))))"
  by (simp_all add: toObject_def)

lemmas step_defs = analyzeError_offline fallback_Timeout attemptFix_unknown onPage_def
  failsFirst_def session0_def countErrorType_def wait_def Let_def

subsection \<open>Substrings, counters and two runs\<close>

lemma str_includes_sublist: "str_includes t sub = sublist sub t"
  by (induction t) (auto simp: sublist_Cons_right)

lemma fallback_timeout_lower:
  "fallbackErrorAnalysis ''timeout'' context =
     \<lparr>errorType = timeout, severity = medium,
      suggestedFixes = [''increase timeout'', ''wait for load'', ''retry navigation''],
      alternativeLocators = [], shouldRetry = True, retryDelay = 5000\<rparr>"
  by (simp add: fallbackErrorAnalysis_def)

lemma attemptFix_timeout_offline:
  "attemptFix offlineEnv error
     (toObject \<lparr>errorType = timeout, severity = medium,
      suggestedFixes = [''increase timeout'', ''wait for load'', ''retry navigation''],
      alternativeLocators = [], shouldRetry = True, retryDelay = 5000\<rparr>) context s =
   (Returned \<lparr>strategy = JStr ''Increased timeout'', success = True,
        newLocator = None, notes = ''Added 5 second delay''\<rparr>, s)"
  by (simp add: attemptFix_def applyFix_def fixTimeout_def onPage_def Let_def)

lemma run_always_timeout:
  "executeWithErrorRecovery offlineEnv (failsFirst 5 ''timeout'' ()) ''login'' (Some (Fin 2))
     session0 =
   Some (ReturnsNull,
    session0\<lparr>world := 2, calls := [OperationCall, AttemptFixCall, OperationCall],
       totalErrors := 2, fixedErrors := 1, errorTypes := [(Some (JStr ''timeout''), 2)]\<rparr>)"
  apply (simp add: executeWithErrorRecovery_def retryBound_def)
  apply (subst executeLoop.simps)
  apply (simp add: analyzeError_offline fallback_timeout_lower attemptFix_timeout_offline
      onPage_def failsFirst_def session0_def countErrorType_def wait_def Let_def)
  apply (subst executeLoop.simps)
  apply (simp add: analyzeError_offline fallback_timeout_lower attemptFix_timeout_offline
      onPage_def failsFirst_def session0_def countErrorType_def wait_def Let_def)
  done

lemma run_fails_twice:
  assumes "hasErrorAnalyzer s" "world s = 0"
  shows "executeWithErrorRecovery offlineEnv (failsFirst 2 ''Timeout 30000ms exceeded'' v) context
     (Some (Fin 3)) s =
   Some (ReturnsResult v,
    s\<lparr>world := 3,
      calls := calls s @ [OperationCall, AttemptFixCall, OperationCall, AttemptFixCall, OperationCall],
      totalErrors := totalErrors s + 2,
      errorTypes := countErrorType (Some (JStr ''unknown''))
                      (countErrorType (Some (JStr ''unknown'')) (errorTypes s))\<rparr>)"
  using assms
  apply (simp add: executeWithErrorRecovery_def retryBound_def)
  apply (subst executeLoop.simps)
  apply (simp add: step_defs)
  apply (subst executeLoop.simps)
  apply (simp add: step_defs)
  apply (subst executeLoop.simps)
  apply (simp add: step_defs)
  done

text \<open>
  Under the bound 2.5 an operation that fails every time is invoked and repaired twice;
  then the header of the loop fails.
\<close>

lemma run_fractional_bound:
  "executeWithErrorRecovery offlineEnv (failsFirst 5 ''timeout'' ()) ''login'' (Some (Fin (5 / 2)))
     session0 =
   Some (ThrowsMaxRetries (Fin (5 / 2)) ''login'',
    session0\<lparr>world := 2,
       calls := [OperationCall, AttemptFixCall, OperationCall, AttemptFixCall],
       totalErrors := 2, fixedErrors := 2, errorTypes := [(Some (JStr ''timeout''), 2)]\<rparr>)"
  apply (simp add: executeWithErrorRecovery_def retryBound_def)
  apply (subst executeLoop.simps)
  apply (simp add: analyzeError_offline fallback_timeout_lower attemptFix_timeout_offline
      onPage_def failsFirst_def session0_def countErrorType_def wait_def Let_def)
  apply (subst executeLoop.simps)
  apply (simp add: analyzeError_offline fallback_timeout_lower attemptFix_timeout_offline
      onPage_def failsFirst_def session0_def countErrorType_def wait_def Let_def)
  apply (subst executeLoop.simps)
  apply simp
  done

lemma map_of_countErrorType:
  "primitive k \<Longrightarrow>
   map_of (countErrorType k m) k' =
     (if k' = k then Some ((case map_of m k of None \<Rightarrow> 0 | Some c \<Rightarrow> c) + 1) else map_of m k')"
  by (simp add: countErrorType_def update_conv')

subsection \<open>The text handed to the parser\<close>

text \<open>
  The match is the text from the first opening brace to the last closing brace.
\<close>

lemma jsonMatch_SomeD:
  assumes "jsonMatch content = Some t"
  shows "\<exists>pre mid post. content = pre @ CHR ''{'' # mid @ CHR ''}'' # post \<and>
           CHR ''{'' \<notin> set pre \<and> CHR ''}'' \<notin> set post \<and> t = CHR ''{'' # mid @ [CHR ''}'']"
proof -
  let ?open = "\<lambda>c. c \<noteq> CHR ''{''" and ?close = "\<lambda>c. c \<noteq> CHR ''}''"
  from assms obtain b rest where d: "dropWhile ?open content = b # rest"
    by (auto simp: jsonMatch_def split: list.splits)
  have b: "b = CHR ''{''"
    using hd_dropWhile [of ?open content] d by auto
  have c: "content = takeWhile ?open content @ CHR ''{'' # rest"
    using takeWhile_dropWhile_id [of ?open content] d b by simp
  have p: "CHR ''{'' \<notin> set (takeWhile ?open content)"
    by (auto dest: set_takeWhileD)
  have u: "(case rev (dropWhile ?close (rev rest)) of [] \<Rightarrow> None
            | y # ys \<Rightarrow> Some (b # y # ys)) = Some t"
    using assms d by (simp add: jsonMatch_def)
  obtain x m where e: "dropWhile ?close (rev rest) = x # m"
  proof (cases "dropWhile ?close (rev rest)")
    case Nil
    with u show ?thesis by simp
  next
    case (Cons x m)
    then show ?thesis by (rule that)
  qed
  have t: "t = b # rev (x # m)"
    using u unfolding e by (simp split: list.splits)
  have x: "x = CHR ''}''"
    using hd_dropWhile [of ?close "rev rest"] e by auto
  have "rev rest = takeWhile ?close (rev rest) @ CHR ''}'' # m"
    using takeWhile_dropWhile_id [of ?close "rev rest"] e x by simp
  then have "rev (rev rest) = rev (takeWhile ?close (rev rest) @ CHR ''}'' # m)" by simp
  then have r: "rest = rev m @ CHR ''}'' # rev (takeWhile ?close (rev rest))" by simp
  have q: "CHR ''}'' \<notin> set (rev (takeWhile ?close (rev rest)))"
    by (auto dest: set_takeWhileD)
  from c r have "content = takeWhile ?open content @ CHR ''{'' # rev m @ CHR ''}'' #
      rev (takeWhile ?close (rev rest))" by simp
  moreover have "t = CHR ''{'' # rev m @ [CHR ''}'']" using t b x by simp
  ultimately show ?thesis using p q by blast
qed

lemma jsonMatch_SomeI:
  assumes "CHR ''{'' \<notin> set pre" "CHR ''}'' \<notin> set post"
  shows "jsonMatch (pre @ CHR ''{'' # mid @ CHR ''}'' # post) = Some (CHR ''{'' # mid @ [CHR ''}''])"
proof -
  have 1: "dropWhile (\<lambda>c. c \<noteq> CHR ''{'') (pre @ CHR ''{'' # mid @ CHR ''}'' # post) =
      CHR ''{'' # mid @ CHR ''}'' # post"
    using assms(1) by (subst dropWhile_append2) auto
  have 2: "dropWhile (\<lambda>c. c \<noteq> CHR ''}'') (rev post @ CHR ''}'' # rev mid) = CHR ''}'' # rev mid"
    using assms(2) by (subst dropWhile_append2) auto
  show ?thesis unfolding jsonMatch_def 1 by (auto simp: 2 split: list.split)
qed

subsection \<open>The fallback classification has every required field\<close>

lemma isErrorAnalysis_fallback:
  "isErrorAnalysis (JObj (toObject (fallbackErrorAnalysis errorMessage context)))"
  by (simp add: isErrorAnalysis_def isErrorAnalysisObject_def fallbackErrorAnalysis_def
      getContextBasedLocators_def list_all_iff)

subsection \<open>Sessions with an answering oracle\<close>

lemma replying_sel [simp]:
  "page_title (replyingEnv reply) = (\<lambda>w. (Inr ''Naukri'', w))"
  "page_content (replyingEnv reply) = (\<lambda>w. (Inr [], w))"
  "page_url (replyingEnv reply) = (\<lambda>w. ''https://www.naukri.com/'')"
  "page_evaluate_visible (replyingEnv reply) = (\<lambda>w. (Inr [], w))"
  "llm_chat (replyingEnv reply) = (\<lambda>p w. (Inr reply, w))"
  "fetch_chat (replyingEnv reply) = (\<lambda>p w. (Inr reply, w))"
  "JSON_parse (replyingEnv reply) = parseTable"
  "setTimeout_wait (replyingEnv reply) = (\<lambda>ms w. w)"
  by (simp_all add: replyingEnv_def offlineEnv_def)

lemma askOracle_offline: "askOracle offlineEnv error context url s = (Inl unreachable, world s)"
  by (simp add: askOracle_def Let_def)

lemma askOracle_replying: "askOracle (replyingEnv reply) error context url s = (Inr reply, world s)"
  by (simp add: askOracle_def Let_def)

lemma jsonMatch_braces: "jsonMatch ''{}'' = Some ''{}''"
  by (simp add: jsonMatch_def)

lemma parseTable_braces: "parseTable ''{}'' = Some (JObj [])"
  by (simp add: parseTable_def)

lemma analyzeError_replying_braces:
  "analyzeError (replyingEnv ''{}'') error context url s =
     (Returned (JObj []), logError (message error) s)"
  by (simp add: analyzeError_def askOracle_replying jsonMatch_braces parseTable_braces Let_def)

lemma analyzeError_unreachable_keeps_history:
  "fst (askOracle env error context url s) = Inl e \<Longrightarrow>
   errorHistory (snd (analyzeError env error context url s)) = errorHistory s"
  by (cases "askOracle env error context url s") (auto simp: analyzeError_def Let_def)

lemma explicit_retries:
  "N \<noteq> Fin 0 \<Longrightarrow>
   executeWithErrorRecovery env operation context (Some N) s = executeLoop env operation context N 1 s"
  by (simp add: executeWithErrorRecovery_def retryBound_def)





text \<open>
  When the oracle classifies a failure as a captcha and nobody is at the console, the call
  waits for ever.
\<close>

lemma nobody_answers: "readline_question (replyingEnv reply) = (\<lambda>w. None)"
  by (simp add: replyingEnv_def offlineEnv_def)

lemma run_waits_for_captcha:
  "executeWithErrorRecovery
     (replyingEnv ''{\"errorType\":\"captcha\",\"shouldRetry\":true,\"suggestedFixes\":[\"solve captcha\"]}'')
     (failsFirst 5 ''boom'' ()) ''login'' (Some (Fin 2)) session0 =
   Some (NeverSettles,
    session0\<lparr>world := 1, calls := [OperationCall, AttemptFixCall], totalErrors := 1,
       errorTypes := [(Some (JStr ''captcha''), 1)], errorHistory := [(''boom'', 1)]\<rparr>)"
  apply (simp add: executeWithErrorRecovery_def retryBound_def)
  apply (subst executeLoop.simps)
  apply (simp add: analyzeError_def askOracle_replying jsonMatch_def parseTable_def logError_def
      attemptFix_def applyFix_def fixCaptcha_def nobody_answers
      onPage_def failsFirst_def session0_def countErrorType_def Let_def)
  done

subsection \<open>No handler reads the fix cache\<close>

text \<open>
  Replacing the cache before a handler runs is the same as replacing it afterwards.
\<close>

lemma cache_swap:
  "s\<lparr>successfulFixes := m, calls := c\<rparr> = s\<lparr>calls := c, successfulFixes := m\<rparr>"
  "s\<lparr>successfulFixes := m, world := w\<rparr> = s\<lparr>world := w, successfulFixes := m\<rparr>"
  by simp_all

lemma onPage_cache:
  "onPage f (s\<lparr>successfulFixes := m\<rparr>) =
     (case onPage f s of (r, s') \<Rightarrow> (r, s'\<lparr>successfulFixes := m\<rparr>))"
  by (simp add: onPage_def split: prod.splits)

lemma firstVisible_cache:
  "firstVisible env ms ls (s\<lparr>successfulFixes := m\<rparr>) =
     (case firstVisible env ms ls s of (r, s') \<Rightarrow> (r, s'\<lparr>successfulFixes := m\<rparr>))"
proof (induction ls arbitrary: s)
  case Nil
  show ?case by simp
next
  case (Cons l ls)
  obtain v s1 where p: "onPage (locator_isVisible env l ms) s = (v, s1)"
    by (cases "onPage (locator_isVisible env l ms) s")
  have q: "onPage (locator_isVisible env l ms) (s\<lparr>successfulFixes := m\<rparr>) =
      (v, s1\<lparr>successfulFixes := m\<rparr>)"
    by (simp add: onPage_cache p)
  have "firstVisible env ms ls (s1\<lparr>calls := calls s1 @ [IsVisibleCall l ms], successfulFixes := m\<rparr>) =
      (case firstVisible env ms ls (s1\<lparr>calls := calls s1 @ [IsVisibleCall l ms]\<rparr>) of
         (r, s') \<Rightarrow> (r, s'\<lparr>successfulFixes := m\<rparr>))"
    using Cons.IH [of "s1\<lparr>calls := calls s1 @ [IsVisibleCall l ms]\<rparr>"] by simp
  then show ?case by (simp add: p q Let_def cache_swap)
qed

lemma fixTimeout_cache:
  "fixTimeout env fix context (s\<lparr>successfulFixes := m\<rparr>) =
     (case fixTimeout env fix context s of (r, s') \<Rightarrow> (r, s'\<lparr>successfulFixes := m\<rparr>))"
  by (simp add: fixTimeout_def onPage_cache split: sum.splits bool.splits prod.splits)

lemma fixNetworkIssue_cache:
  "fixNetworkIssue env fix (s\<lparr>successfulFixes := m\<rparr>) =
     (case fixNetworkIssue env fix s of (r, s') \<Rightarrow> (r, s'\<lparr>successfulFixes := m\<rparr>))"
  by (simp add: fixNetworkIssue_def onPage_cache split: sum.splits bool.splits prod.splits)

lemma fixCaptcha_cache:
  "fixCaptcha env fix (s\<lparr>successfulFixes := m\<rparr>) =
     (case fixCaptcha env fix s of (r, s') \<Rightarrow> (r, s'\<lparr>successfulFixes := m\<rparr>))"
  by (simp add: fixCaptcha_def split: option.splits)

lemma fixUIChange_cache:
  "fixUIChange env fix context (s\<lparr>successfulFixes := m\<rparr>) =
     (case fixUIChange env fix context s of (r, s') \<Rightarrow> (r, s'\<lparr>successfulFixes := m\<rparr>))"
  by (simp add: fixUIChange_def onPage_cache firstVisible_cache Let_def cache_swap
      split: sum.splits prod.splits option.splits)

lemma fixLocator_cache:
  "fixLocator env fix alts context (s\<lparr>successfulFixes := m\<rparr>) =
     (case fixLocator env fix alts context s of (r, s') \<Rightarrow> (r, s'\<lparr>successfulFixes := m\<rparr>))"
proof (cases "js_iterate alts")
  case (Inl e)
  then show ?thesis by (simp add: fixLocator_def)
next
  case (Inr cands)
  let ?c = "\<lambda>t. t\<lparr>successfulFixes := m\<rparr>"
  obtain r1 s1 where f1: "firstVisible env 5000 cands s = (r1, s1)"
    by (cases "firstVisible env 5000 cands s")
  obtain r2 s2 where f2:
    "(if str_includes context ''login''
      then firstVisible env 2000 (map JStr loginLocators) s1 else (None, s1)) = (r2, s2)"
    by (cases "(if str_includes context ''login''
      then firstVisible env 2000 (map JStr loginLocators) s1 else (None, s1))")
  obtain r3 s3 where f3:
    "(if str_includes context ''job'' \<or> str_includes context ''apply''
      then firstVisible env 2000 (map JStr jobLocators) s2 else (None, s2)) = (r3, s3)"
    by (cases "(if str_includes context ''job'' \<or> str_includes context ''apply''
      then firstVisible env 2000 (map JStr jobLocators) s2 else (None, s2))")
  have g1: "firstVisible env 5000 cands (?c s) = (r1, ?c s1)"
    by (simp add: firstVisible_cache f1)
  have g2: "(if str_includes context ''login''
      then firstVisible env 2000 (map JStr loginLocators) (?c s1) else (None, ?c s1)) = (r2, ?c s2)"
    using f2 by (auto simp: firstVisible_cache split: if_splits)
  have g3: "(if str_includes context ''job'' \<or> str_includes context ''apply''
      then firstVisible env 2000 (map JStr jobLocators) (?c s2) else (None, ?c s2)) = (r3, ?c s3)"
    using f3 by (auto simp: firstVisible_cache split: if_splits)
  show ?thesis
    unfolding fixLocator_def Inr sum.case f1 g1 prod.case
    by (cases r1; cases r2; cases r3; simp only: f2 g2 f3 g3 prod.case option.case)
qed

lemma applyFix_cache:
  "applyFix env fix analysis context (s\<lparr>successfulFixes := m\<rparr>) =
     (case applyFix env fix analysis context s of (r, s') \<Rightarrow> (r, s'\<lparr>successfulFixes := m\<rparr>))"
  by (simp add: applyFix_def Let_def fixTimeout_cache fixLocator_cache fixUIChange_cache
      fixNetworkIssue_cache fixCaptcha_cache)

lemma tryFixes_cache:
  "fst (tryFixes env fs analysis context (s\<lparr>successfulFixes := m\<rparr>)) =
     fst (tryFixes env fs analysis context s) \<and>
   calls (snd (tryFixes env fs analysis context (s\<lparr>successfulFixes := m\<rparr>))) =
     calls (snd (tryFixes env fs analysis context s)) \<and>
   world (snd (tryFixes env fs analysis context (s\<lparr>successfulFixes := m\<rparr>))) =
     world (snd (tryFixes env fs analysis context s))"
proof (induction fs arbitrary: s)
  case Nil
  show ?case by simp
next
  case (Cons f fs)
  obtain r1 s1 where a: "applyFix env f analysis context s = (r1, s1)"
    by (cases "applyFix env f analysis context s")
  have b: "applyFix env f analysis context (s\<lparr>successfulFixes := m\<rparr>) =
      (r1, s1\<lparr>successfulFixes := m\<rparr>)"
    by (simp add: applyFix_cache a)
  show ?case
  proof (cases r1)
    case (Returned result)
    then show ?thesis using a b Cons.IH [of s1] by simp
  next
    case (Thrown e)
    then show ?thesis using a b Cons.IH [of s1] by simp
  next
    case Pending
    then show ?thesis using a b by simp
  qed
qed

lemma attemptFix_cache:
  "fst (attemptFix env error analysis context (s\<lparr>successfulFixes := m\<rparr>)) =
     fst (attemptFix env error analysis context s) \<and>
   calls (snd (attemptFix env error analysis context (s\<lparr>successfulFixes := m\<rparr>))) =
     calls (snd (attemptFix env error analysis context s)) \<and>
   world (snd (attemptFix env error analysis context (s\<lparr>successfulFixes := m\<rparr>))) =
     world (snd (attemptFix env error analysis context s))"
  by (simp add: attemptFix_def Let_def tryFixes_cache split: sum.splits)

subsection \<open>A successful fix with a locator is stored under the context\<close>

lemma tryFixes_stores:
  "tryFixes env fs analysis context s = (Returned r, s') \<Longrightarrow> success r \<Longrightarrow>
   truthy (newLocator r) \<Longrightarrow> map_of (successfulFixes s') context = newLocator r"
proof (induction fs arbitrary: s)
  case Nil
  then show ?case by auto
next
  case (Cons f fs)
  obtain r1 s1 where a: "applyFix env f analysis context s = (r1, s1)"
    by (cases "applyFix env f analysis context s")
  from Cons.prems(3) obtain l where l: "newLocator r = Some l"
    by (cases "newLocator r") auto
  show ?case
  proof (cases r1)
    case (Returned result)
    show ?thesis
    proof (cases "success result")
      case True
      with Cons.prems a Returned l show ?thesis by (auto simp: update_conv')
    next
      case False
      with Cons.prems a Returned show ?thesis using Cons.IH [of s1] by simp
    qed
  next
    case (Thrown e)
    with Cons.prems a show ?thesis using Cons.IH [of s1] by simp
  next
    case Pending
    with Cons.prems a show ?thesis by simp
  qed
qed

lemma attemptFix_stores:
  "attemptFix env error analysis context s = (Returned r, s') \<Longrightarrow> success r \<Longrightarrow>
   truthy (newLocator r) \<Longrightarrow> map_of (successfulFixes s') context = newLocator r"
  by (auto simp: attemptFix_def Let_def split: if_splits sum.splits dest: tryFixes_stores)

subsection \<open>The first probe of the locator handler\<close>

lemma onPage_calls: "onPage f s = (r, s') \<Longrightarrow> calls s' = calls s"
  by (auto simp: onPage_def split: prod.splits)

lemma firstVisible_extends:
  "firstVisible env ms ls s = (r, s') \<Longrightarrow> prefix (calls s) (calls s')"
proof (induction ls arbitrary: s)
  case Nil
  then show ?case by simp
next
  case (Cons l ls)
  obtain v s1 where p: "onPage (locator_isVisible env l ms) s = (v, s1)"
    by (cases "onPage (locator_isVisible env l ms) s")
  let ?s2 = "s1\<lparr>calls := calls s1 @ [IsVisibleCall l ms]\<rparr>"
  have c: "calls ?s2 = calls s @ [IsVisibleCall l ms]"
    using onPage_calls [OF p] by simp
  show ?case
  proof (cases "v = Inr True")
    case True
    with Cons.prems p c show ?thesis by (auto simp: Let_def)
  next
    case False
    with Cons.prems p have "firstVisible env ms ls ?s2 = (r, s')" by (simp add: Let_def)
    from Cons.IH [OF this] c show ?thesis by (auto dest: append_prefixD)
  qed
qed

lemma firstVisible_first_probe:
  "firstVisible env ms (l # ls) s = (r, s') \<Longrightarrow>
   prefix (calls s @ [IsVisibleCall l ms]) (calls s')"
proof -
  assume run: "firstVisible env ms (l # ls) s = (r, s')"
  obtain v s1 where p: "onPage (locator_isVisible env l ms) s = (v, s1)"
    by (cases "onPage (locator_isVisible env l ms) s")
  let ?s2 = "s1\<lparr>calls := calls s1 @ [IsVisibleCall l ms]\<rparr>"
  have c: "calls ?s2 = calls s @ [IsVisibleCall l ms]"
    using onPage_calls [OF p] by simp
  show ?thesis
  proof (cases "v = Inr True")
    case True
    with run p c show ?thesis by (auto simp: Let_def)
  next
    case False
    with run p have "firstVisible env ms ls ?s2 = (r, s')" by (simp add: Let_def)
    from firstVisible_extends [OF this] c show ?thesis by simp
  qed
qed

lemma fixLocator_first_probe:
  "prefix (calls s @ [IsVisibleCall l 5000])
     (calls (snd (fixLocator env fix (Some (JArr (l # ls))) context s)))"
proof -
  obtain r1 s1 where f1: "firstVisible env 5000 (l # ls) s = (r1, s1)"
    by (cases "firstVisible env 5000 (l # ls) s")
  obtain r2 s2 where f2:
    "(if str_includes context ''login''
      then firstVisible env 2000 (map JStr loginLocators) s1 else (None, s1)) = (r2, s2)"
    by (cases "(if str_includes context ''login''
      then firstVisible env 2000 (map JStr loginLocators) s1 else (None, s1))")
  obtain r3 s3 where f3:
    "(if str_includes context ''job'' \<or> str_includes context ''apply''
      then firstVisible env 2000 (map JStr jobLocators) s2 else (None, s2)) = (r3, s3)"
    by (cases "(if str_includes context ''job'' \<or> str_includes context ''apply''
      then firstVisible env 2000 (map JStr jobLocators) s2 else (None, s2))")
  have p1: "prefix (calls s @ [IsVisibleCall l 5000]) (calls s1)"
    using f1 by (rule firstVisible_first_probe)
  have p2: "prefix (calls s1) (calls s2)"
    using f2 by (auto split: if_splits dest: firstVisible_extends)
  have p3: "prefix (calls s2) (calls s3)"
    using f3 by (auto split: if_splits dest: firstVisible_extends)
  have "snd (fixLocator env fix (Some (JArr (l # ls))) context s) \<in> {s1, s2, s3}"
    unfolding fixLocator_def js_iterate.simps sum.case f1 prod.case
    by (cases r1; cases r2; cases r3; simp only: f2 f3 prod.case option.case; simp)
  with p1 p2 p3 show ?thesis by (auto intro: prefix_order.trans)
qed

lemma visible_sel [simp]:
  "locator_isVisible visibleEnv = (\<lambda>l ms w. (Inr True, w))"
  "String_of visibleEnv = (\<lambda>j. [])"
  by (simp_all add: visibleEnv_def offlineEnv_def)

lemma attemptFix_visible:
  "attemptFix visibleEnv error (locatorAnalysis (l # ls)) context s =
     (Returned (found visibleEnv ''Alternative locator: '' ''Found working locator: '' (JStr l)),
      s\<lparr>calls := calls s @ [IsVisibleCall (JStr l) 5000],
        successfulFixes := (if l = [] then successfulFixes s
                            else AList.update context (JStr l) (successfulFixes s))\<rparr>)"
  by (simp add: attemptFix_def applyFix_def fixLocator_def locatorAnalysis_def onPage_def
      found_def Let_def)

subsection \<open>Any page, with the oracle unreachable\<close>

lemma beside_counter': "beside f wi = (r, wi') \<Longrightarrow> snd wi' = snd wi"
  by (cases wi) (auto simp: beside_def split: prod.splits)

lemma askOracle_counting:
  assumes "\<And>p w. isl (fst (llm_chat env p w))"
  shows "\<exists>e w'. askOracle (counting env) error context url s = (Inl e, (w', snd (world s)))"
proof -
  obtain w i where ws: "world s = (w, i)" by (cases "world s")
  obtain r1 w1 where 1: "page_title env w = (r1, w1)" by (cases "page_title env w")
  obtain r2 w2 where 2: "page_content env w1 = (r2, w2)" by (cases "page_content env w1")
  obtain r3 w3 where 3: "page_evaluate_visible env w2 = (r3, w3)"
    by (cases "page_evaluate_visible env w2")
  let ?p = "analysisPrompt error context url (orElse r1 ''Unknown'') (orElse r2 []) (orElse r3 [])
         (errorHistory s)"
  from assms [of ?p w3] obtain e w4 where 4: "llm_chat env ?p w3 = (Inl e, w4)"
    by (cases "llm_chat env ?p w3") (auto simp: isl_def)
  have "askOracle (counting env) error context url s = (Inl e, (w4, i))"
    by (simp add: askOracle_def counting_def beside_def ws 1 2 3 4 Let_def)
  with ws show ?thesis by simp
qed

lemma analyzeError_counting:
  assumes "\<And>p w. isl (fst (llm_chat env p w))"
  shows "\<exists>w'. analyzeError (counting env) error context url s =
           (Returned (JObj (toObject (fallbackErrorAnalysis (message error) context))),
            s\<lparr>world := (w', snd (world s))\<rparr>)"
proof -
  from askOracle_counting [OF assms] obtain e w' where
    "askOracle (counting env) error context url s = (Inl e, (w', snd (world s)))" by blast
  then have "analyzeError (counting env) error context url s =
           (Returned (JObj (toObject (fallbackErrorAnalysis (message error) context))),
            s\<lparr>world := (w', snd (world s))\<rparr>)"
    by (simp add: analyzeError_def Let_def)
  then show ?thesis by blast
qed

lemma failed_iteration:
  assumes unreachable: "\<And>p w. isl (fst (llm_chat env p w))" and analyzer: "hasErrorAnalyzer s"
    and failing: "snd (world s) < k" and more: "num_lt (Fin (of_nat attempt)) retries"
    and following: "attempt' = attempt + 1"
  shows "\<exists>s1. executeLoop (counting env) (failsFirstCounted k ''Timeout 30000ms exceeded'' v)
              ctx retries attempt s =
            executeLoop (counting env) (failsFirstCounted k ''Timeout 30000ms exceeded'' v)
              ctx retries attempt' s1 \<and>
          hasErrorAnalyzer s1 \<and> snd (world s1) = snd (world s) + 1 \<and>
          totalErrors s1 = totalErrors s + 1 \<and> fixedErrors s1 = fixedErrors s \<and>
          errorTypes s1 = countErrorType (Some (JStr ''unknown'')) (errorTypes s)"
proof -
  let ?env = "counting env"
  let ?op = "failsFirstCounted k ''Timeout 30000ms exceeded'' v"
  let ?err = "Error ''Timeout 30000ms exceeded'' []"
  obtain w i where ws: "world s = (w, i)" by (cases "world s")
  with failing have i: "i < k" by simp
  let ?s1 = "s\<lparr>calls := calls s @ [OperationCall], world := (w, i + 1)\<rparr>"
  have op: "onPage ?op (s\<lparr>calls := calls s @ [OperationCall]\<rparr>) = (Inl ?err, ?s1)"
    using i by (simp add: onPage_def failsFirstCounted_def ws)
  let ?s2 = "?s1\<lparr>totalErrors := totalErrors ?s1 + 1\<rparr>"
  from analyzeError_counting [OF unreachable, of ?err "ctx" "page_url ?env (world ?s2)" ?s2]
  obtain w' where an: "analyzeError ?env ?err ctx (page_url ?env (world ?s2)) ?s2 =
      (Returned (JObj (toObject (fallbackErrorAnalysis ''Timeout 30000ms exceeded'' ctx))),
       ?s2\<lparr>world := (w', i + 1)\<rparr>)"
    by auto
  let ?s3 = "?s2\<lparr>world := (w', i + 1)\<rparr>"
  let ?s4 = "?s3\<lparr>errorTypes := countErrorType (Some (JStr ''unknown'')) (errorTypes ?s3)\<rparr>"
  let ?s5 = "?s4\<lparr>calls := calls ?s4 @ [AttemptFixCall]\<rparr>"
  let ?next = "wait ?env (Some (JNum (Fin 3000))) ?s5"
  from more have within: "num_le (Fin (of_nat attempt)) retries"
    by (cases retries) simp_all
  have "executeLoop ?env ?op ctx retries attempt s =
      executeLoop ?env ?op ctx retries attempt' ?next"
    using more within analyzer following
    by (subst executeLoop.simps)
      (simp add: op an [simplified] fallback_Timeout attemptFix_unknown Let_def)
  moreover have "hasErrorAnalyzer ?next \<and> snd (world ?next) = snd (world s) + 1 \<and>
      totalErrors ?next = totalErrors s + 1 \<and> fixedErrors ?next = fixedErrors s \<and>
      errorTypes ?next = countErrorType (Some (JStr ''unknown'')) (errorTypes s)"
    using analyzer by (simp add: wait_def counting_def ws)
  ultimately show ?thesis by blast
qed

lemma successful_iteration:
  assumes "k \<le> snd (world s)" and "num_le (Fin (of_nat attempt)) retries"
  shows "\<exists>s'. executeLoop env (failsFirstCounted k msg v) ctx retries attempt s =
              Some (ReturnsResult v, s') \<and>
          totalErrors s' = totalErrors s \<and> fixedErrors s' = fixedErrors s \<and>
          errorTypes s' = errorTypes s"
proof -
  obtain w i where ws: "world s = (w, i)" by (cases "world s")
  with assms(1) have "\<not> i < k" by simp
  then have "onPage (failsFirstCounted k msg v) (s\<lparr>calls := calls s @ [OperationCall]\<rparr>) =
      (Inr v, s\<lparr>calls := calls s @ [OperationCall], world := (w, i + 1)\<rparr>)"
    by (simp add: onPage_def failsFirstCounted_def ws)
  then have "executeLoop env (failsFirstCounted k msg v) ctx retries attempt s =
      Some (ReturnsResult v, s\<lparr>calls := calls s @ [OperationCall], world := (w, i + 1)\<rparr>)"
    using assms(2) by (subst executeLoop.simps) simp
  then show ?thesis by simp
qed

subsection \<open>Clamping the confidence score\<close>

lemma clamp_in_range:
  "num_le (Fin 0) (Math_max (Fin 0) (Math_min (Fin 100) n)) \<and>
   num_le (Math_max (Fin 0) (Math_min (Fin 100) n)) (Fin 100)"
  by (cases n) (auto simp: Math_max_def Math_min_def)

lemma local_in_range:
  "confidenceInRange (JObj (jobObject (localJobAnalysis this jobTitle company jobDescription salary)))"
  by (simp add: confidenceInRange_def jobObject_def localJobAnalysis_def Let_def clamp_in_range
      split: prod.splits)

lemma clamped_in_range:
  "validJobAnalysis analysis \<Longrightarrow> confidenceInRange (clampConfidence analysis)"
  by (auto simp: validJobAnalysis_def clampConfidence_def confidenceInRange_def update_conv'
      clamp_in_range split: json.splits option.splits)

section \<open>The claims\<close>

text \<open>
  C1. For every operation, context and retry bound \<open>N \<ge> 1\<close>,
  \<^verbatim>\<open>executeWithErrorRecovery(operation, context, N)\<close> invokes the operation at most \<open>N\<close>
  times, whatever the classifications are and whether or not the fix attempts succeed: the
  call ends, and the log of the session has gained at most \<open>N\<close> invocations, whether \<open>N\<close> is
  a whole number or not (then they are at most \<open>N\<close> rounded down). A successful fix takes
  one of the \<open>N\<close> slots: whatever happened before, the loop that stands at the value
  \<open>attempt\<close> of its counter invokes the operation at most \<open>N - attempt + 1\<close> more times. In
  the offline session below the first failure is repaired, the second invocation is the
  last one, and the call gives up after two invocations and one repair.
\<close>

theorem operation_invoked_at_most_N_times:
  "1 \<le> N \<Longrightarrow>
   (\<exists>r t. executeWithErrorRecovery env operation context (Some (Fin N)) s = Some (r, t) \<and>
      of_nat (opCalls t) \<le> of_nat (opCalls s) + N \<and>
      opCalls t \<le> opCalls s + nat \<lfloor>N\<rfloor>) \<and>
   (\<exists>r t. executeLoop env operation context (Fin N) attempt s' = Some (r, t) \<and>
      opCalls t \<le> opCalls s' + (Suc (nat \<lfloor>N\<rfloor>) - attempt))"
proof -
  assume N: "1 \<le> N"
  from executeLoop_opCalls [of env operation "context" N 1 s]
  obtain r t where run: "executeLoop env operation context (Fin N) 1 s = Some (r, t)"
    and bound: "opCalls t \<le> opCalls s + (Suc (nat \<lfloor>N\<rfloor>) - 1)" by blast
  from bound have floor: "opCalls t \<le> opCalls s + nat \<lfloor>N\<rfloor>" by simp
  from N have "0 \<le> \<lfloor>N\<rfloor>" by simp
  then have "(of_nat (nat \<lfloor>N\<rfloor>) :: rat) = of_int \<lfloor>N\<rfloor>" by simp
  also have "\<dots> \<le> N" by (rule of_int_floor_le)
  finally have below: "(of_nat (nat \<lfloor>N\<rfloor>) :: rat) \<le> N" .
  from floor have "(of_nat (opCalls t) :: rat) \<le> of_nat (opCalls s + nat \<lfloor>N\<rfloor>)"
    by (simp only: of_nat_le_iff)
  with below have "(of_nat (opCalls t) :: rat) \<le> of_nat (opCalls s) + N" by simp
  moreover from N have "Fin N \<noteq> Fin 0" by simp
  ultimately have "\<exists>r t. executeWithErrorRecovery env operation context (Some (Fin N)) s =
      Some (r, t) \<and> of_nat (opCalls t) \<le> of_nat (opCalls s) + N \<and>
      opCalls t \<le> opCalls s + nat \<lfloor>N\<rfloor>"
    using run floor by (simp add: explicit_retries)
  moreover have "\<exists>r t. executeLoop env operation context (Fin N) attempt s' = Some (r, t) \<and>
      opCalls t \<le> opCalls s' + (Suc (nat \<lfloor>N\<rfloor>) - attempt)"
    by (rule executeLoop_opCalls)
  ultimately show ?thesis by blast
qed

theorem operation_invoked_at_most_N_times_witness:
  "(1::rat) \<le> 2 \<and>
   (\<exists>r t. executeWithErrorRecovery offlineEnv (failsFirst 5 ''timeout'' ()) ''login''
            (Some (Fin 2)) session0 = Some (r, t) \<and>
      opCalls t \<le> opCalls session0 + 2 \<and> opCalls t = 2 \<and> fixedErrors t = 1)"
  using operation_invoked_at_most_N_times
    [of 2 offlineEnv "failsFirst 5 ''timeout'' ()" "''login''" session0 1 session0]
  by (simp add: run_always_timeout opCalls_def)

text \<open>
  C2, as claimed: a message that contains the word \<^verbatim>\<open>timeout\<close> in any letter case is
  classified as a timeout by the fallback. It is not: the message of the claim, with its
  capital letter, contains the word once lower-cased, and the fallback classifies it as
  unknown.
\<close>

theorem fallback_ignores_capitalised_Timeout:
  "str_includes (toLowerCase ''Timeout 30000ms exceeded'') ''timeout'' \<and>
   errorType (fallbackErrorAnalysis ''Timeout 30000ms exceeded'' ''login'') = unknown"
  by (simp add: fallback_Timeout) code_simp

text \<open>
  C2, as the code has it: the match keeps the letter case. The messages that the
  fallback classifies as a timeout are exactly those that contain the lower-case word
  \<^verbatim>\<open>timeout\<close>; each of them gets, in every context, medium severity and the three timeout
  fixes, to be retried after 5000 ms.
\<close>

theorem fallback_timeout_case_sensitive:
  "(errorType (fallbackErrorAnalysis errorMessage context) = timeout) =
     str_includes errorMessage ''timeout'' \<and>
   (str_includes errorMessage ''timeout'' \<longrightarrow>
    fallbackErrorAnalysis errorMessage context =
      \<lparr>errorType = timeout, severity = medium,
       suggestedFixes = [''increase timeout'', ''wait for load'', ''retry navigation''],
       alternativeLocators = [], shouldRetry = True, retryDelay = 5000\<rparr>)"
  by (simp add: fallbackErrorAnalysis_def)

theorem fallback_timeout_case_sensitive_witness:
  "str_includes ''page.goto: timeout 30000ms'' ''timeout'' \<and>
   errorType (fallbackErrorAnalysis ''page.goto: timeout 30000ms'' ''job_search'') = timeout \<and>
   retryDelay (fallbackErrorAnalysis ''page.goto: timeout 30000ms'' ''job_search'') = 5000"
proof -
  have h: "str_includes ''page.goto: timeout 30000ms'' ''timeout''" by simp
  from fallback_timeout_case_sensitive [of "''page.goto: timeout 30000ms''" "''job_search''"] h
  show ?thesis by simp
qed

text \<open>
  C3, as claimed: \<^verbatim>\<open>analyzeError\<close> checks the fields of the oracle's object and never
  returns one that misses a required field. It does: when the oracle answers \<^verbatim>\<open>{}\<close>, the
  classifier returns the empty object, which has none of the fields that the return type
  \<^verbatim>\<open>ErrorAnalysis\<close> declares.
\<close>

theorem analyzeError_returns_unvalidated_object:
  "fst (analyzeError (replyingEnv ''{}'') (Error ''boom'' []) ''login'' [] session0) =
     Returned (JObj []) \<and>
   \<not> isErrorAnalysis (JObj [])"
  by (simp add: analyzeError_def askOracle_replying jsonMatch_braces parseTable_braces Let_def
      isErrorAnalysis_def isErrorAnalysisObject_def)

text \<open>
  C3. \<^verbatim>\<open>analyzeError\<close> is to return the oracle's object only after checking its fields, and
  the fallback classification otherwise. The code has the second half and not the first.
  It never throws and always returns. When \<^verbatim>\<open>JSON.parse\<close> accepts the text from the first
  opening brace to the last closing brace of the oracle's reply, the result is the parsed
  value itself, whatever it is: no field of it is looked at. Only when the oracle cannot
  be reached, its reply has no such text, or the text does not parse, is the result the
  fallback classification, which has every required field with its type. So a reply
  that wraps an object with two of the six fields comes back as that object.
\<close>

theorem analyzeError_returns_parsed_reply_unchecked:
  "(\<exists>v s'. analyzeError env error context url s = (Returned v, s')) \<and>
   (\<forall>pre mid post v.
      fst (askOracle env error context url s) = Inr (pre @ CHR ''{'' # mid @ CHR ''}'' # post) \<longrightarrow>
      CHR ''{'' \<notin> set pre \<longrightarrow> CHR ''}'' \<notin> set post \<longrightarrow>
      JSON_parse env (CHR ''{'' # mid @ [CHR ''}'']) = Some v \<longrightarrow>
      fst (analyzeError env error context url s) = Returned v) \<and>
   ((\<forall>pre mid post.
      fst (askOracle env error context url s) = Inr (pre @ CHR ''{'' # mid @ CHR ''}'' # post) \<longrightarrow>
      CHR ''{'' \<notin> set pre \<longrightarrow> CHR ''}'' \<notin> set post \<longrightarrow>
      JSON_parse env (CHR ''{'' # mid @ [CHR ''}'']) = None) \<longrightarrow>
    fst (analyzeError env error context url s) =
      Returned (JObj (toObject (fallbackErrorAnalysis (message error) context)))) \<and>
   isErrorAnalysis (JObj (toObject (fallbackErrorAnalysis (message error) context)))"
proof -
  obtain response w where ask: "askOracle env error context url s = (response, w)"
    by (cases "askOracle env error context url s")
  let ?fb = "JObj (toObject (fallbackErrorAnalysis (message error) context))"
  let ?result = "fst (analyzeError env error context url s)"
  have settles: "\<exists>v s'. analyzeError env error context url s = (Returned v, s')"
    using ask
    by (auto simp: analyzeError_def Let_def split: sum.splits option.splits)
  have parsed: "?result = Returned v"
    if "fst (askOracle env error context url s) = Inr (pre @ CHR ''{'' # mid @ CHR ''}'' # post)"
      and "CHR ''{'' \<notin> set pre" and "CHR ''}'' \<notin> set post"
      and "JSON_parse env (CHR ''{'' # mid @ [CHR ''}'']) = Some v"
    for pre mid post v
  proof -
    from that(1) ask have "response = Inr (pre @ CHR ''{'' # mid @ CHR ''}'' # post)" by simp
    moreover from that(2,3)
    have "jsonMatch (pre @ CHR ''{'' # mid @ CHR ''}'' # post) = Some (CHR ''{'' # mid @ [CHR ''}''])"
      by (rule jsonMatch_SomeI)
    ultimately show ?thesis using ask that(4) by (simp add: analyzeError_def Let_def)
  qed
  have unparsed: "?result = Returned ?fb"
    if none: "\<forall>pre mid post.
      fst (askOracle env error context url s) = Inr (pre @ CHR ''{'' # mid @ CHR ''}'' # post) \<longrightarrow>
      CHR ''{'' \<notin> set pre \<longrightarrow> CHR ''}'' \<notin> set post \<longrightarrow>
      JSON_parse env (CHR ''{'' # mid @ [CHR ''}'']) = None"
  proof (cases response)
    case (Inl e)
    with ask show ?thesis by (simp add: analyzeError_def Let_def)
  next
    case (Inr content)
    show ?thesis
    proof (cases "jsonMatch content")
      case None
      with ask Inr show ?thesis by (simp add: analyzeError_def Let_def)
    next
      case (Some jsonText)
      from jsonMatch_SomeD [OF Some] obtain pre mid post where
        c: "content = pre @ CHR ''{'' # mid @ CHR ''}'' # post" and
        p: "CHR ''{'' \<notin> set pre" "CHR ''}'' \<notin> set post" and
        j: "jsonText = CHR ''{'' # mid @ [CHR ''}'']" by blast
      from ask Inr c
      have "fst (askOracle env error context url s) = Inr (pre @ CHR ''{'' # mid @ CHR ''}'' # post)"
        by simp
      with none p have "JSON_parse env (CHR ''{'' # mid @ [CHR ''}'']) = None" by blast
      with ask Inr Some j show ?thesis by (simp add: analyzeError_def Let_def)
    qed
  qed
  have "isErrorAnalysis ?fb" by (rule isErrorAnalysis_fallback)
  with settles parsed unparsed show ?thesis by blast
qed

theorem analyzeError_returns_parsed_reply_unchecked_witness:
  "fst (askOracle (replyingEnv ''Here it is: {\"shouldRetry\":false,\"severity\":\"high\"} Good luck!'')
     (Error ''locator not found'' []) ''login'' [] session0) =
     Inr (''Here it is: '' @ CHR ''{'' # ''\"shouldRetry\":false,\"severity\":\"high\"'' @ CHR ''}'' # '' Good luck!'') \<and>
   CHR ''{'' \<notin> set ''Here it is: '' \<and> CHR ''}'' \<notin> set '' Good luck!'' \<and>
   JSON_parse (replyingEnv ''Here it is: {\"shouldRetry\":false,\"severity\":\"high\"} Good luck!'')
     (CHR ''{'' # ''\"shouldRetry\":false,\"severity\":\"high\"'' @ [CHR ''}'']) =
     Some (JObj [(''shouldRetry'', JBool False), (''severity'', JStr ''high'')]) \<and>
   fst (analyzeError (replyingEnv ''Here it is: {\"shouldRetry\":false,\"severity\":\"high\"} Good luck!'')
     (Error ''locator not found'' []) ''login'' [] session0) =
     Returned (JObj [(''shouldRetry'', JBool False), (''severity'', JStr ''high'')]) \<and>
   \<not> isErrorAnalysis (JObj [(''shouldRetry'', JBool False), (''severity'', JStr ''high'')]) \<and>
   fst (askOracle (replyingEnv ''I cannot tell.'') (Error ''locator not found'' []) ''login'' []
     session0) = Inr ''I cannot tell.'' \<and>
   CHR ''{'' \<notin> set ''I cannot tell.'' \<and>
   fst (analyzeError (replyingEnv ''I cannot tell.'') (Error ''locator not found'' []) ''login'' []
     session0) =
     Returned (JObj (toObject (fallbackErrorAnalysis ''locator not found'' ''login''))) \<and>
   isErrorAnalysis (JObj (toObject (fallbackErrorAnalysis ''locator not found'' ''login'')))"
proof -
  let ?e = "Error ''locator not found'' []"
  let ?wrapped = "''Here it is: {\"shouldRetry\":false,\"severity\":\"high\"} Good luck!''"
  let ?partial = "JObj [(''shouldRetry'', JBool False), (''severity'', JStr ''high'')]"
  have ask: "fst (askOracle (replyingEnv ?wrapped) ?e ''login'' [] session0) =
      Inr (''Here it is: '' @ CHR ''{'' # ''\"shouldRetry\":false,\"severity\":\"high\"'' @ CHR ''}'' # '' Good luck!'')"
    by (simp add: askOracle_replying)
  have pre: "CHR ''{'' \<notin> set ''Here it is: ''" and post: "CHR ''}'' \<notin> set '' Good luck!''"
    by simp_all
  have parse: "JSON_parse (replyingEnv ?wrapped)
      (CHR ''{'' # ''\"shouldRetry\":false,\"severity\":\"high\"'' @ [CHR ''}'']) = Some ?partial"
    by (simp add: parseTable_def)
  have invalid: "\<not> isErrorAnalysis ?partial"
    by (simp add: isErrorAnalysis_def isErrorAnalysisObject_def)
  have ask': "fst (askOracle (replyingEnv ''I cannot tell.'') ?e ''login'' [] session0) =
      Inr ''I cannot tell.''"
    by (simp add: askOracle_replying)
  have plain: "CHR ''{'' \<notin> set ''I cannot tell.''" by simp
  have none: "\<forall>pre mid post.
      fst (askOracle (replyingEnv ''I cannot tell.'') ?e ''login'' [] session0) =
        Inr (pre @ CHR ''{'' # mid @ CHR ''}'' # post) \<longrightarrow>
      CHR ''{'' \<notin> set pre \<longrightarrow> CHR ''}'' \<notin> set post \<longrightarrow>
      JSON_parse (replyingEnv ''I cannot tell.'') (CHR ''{'' # mid @ [CHR ''}'']) = None"
  proof (intro allI impI)
    fix pre mid post
    assume "fst (askOracle (replyingEnv ''I cannot tell.'') ?e ''login'' [] session0) =
        Inr (pre @ CHR ''{'' # mid @ CHR ''}'' # post)"
    with ask' have "''I cannot tell.'' = pre @ CHR ''{'' # mid @ CHR ''}'' # post" by simp
    then have "set ''I cannot tell.'' = set (pre @ CHR ''{'' # mid @ CHR ''}'' # post)"
      by (rule arg_cong)
    then have "CHR ''{'' \<in> set ''I cannot tell.''" by simp
    with plain show "JSON_parse (replyingEnv ''I cannot tell.'') (CHR ''{'' # mid @ [CHR ''}'']) = None"
      by blast
  qed
  note facts = analyzeError_returns_parsed_reply_unchecked
    [of "replyingEnv ?wrapped" ?e "''login''" "[]" session0]
  from facts ask pre post parse
  have "fst (analyzeError (replyingEnv ?wrapped) ?e ''login'' [] session0) = Returned ?partial"
    by blast
  moreover note facts' = analyzeError_returns_parsed_reply_unchecked
    [of "replyingEnv ''I cannot tell.''" ?e "''login''" "[]" session0]
  from facts' none
  have "fst (analyzeError (replyingEnv ''I cannot tell.'') ?e ''login'' [] session0) =
      Returned (JObj (toObject (fallbackErrorAnalysis ''locator not found'' ''login'')))"
    by simp
  moreover from facts'
  have "isErrorAnalysis (JObj (toObject (fallbackErrorAnalysis ''locator not found'' ''login'')))"
    by simp
  ultimately show ?thesis using ask pre post parse invalid ask' plain by blast
qed

text \<open>
  C4, as claimed: once a fix in a context has stored its locator, the handling of the next
  failure in that context probes the stored locator first. It does not: after
  \<^verbatim>\<open>#usernameField\<close> is stored for \<^verbatim>\<open>login\<close>, the next locator failure in \<^verbatim>\<open>login\<close>,
  classified with the candidate \<^verbatim>\<open>#emailField\<close>, probes that candidate and nothing else.
\<close>

theorem cached_locator_not_consulted:
  "map_of (successfulFixes (snd (attemptFix visibleEnv (Error ''locator not found'' [])
       (locatorAnalysis [''#usernameField'']) ''login'' session0))) ''login'' =
     Some (JStr ''#usernameField'') \<and>
   calls (snd (attemptFix visibleEnv (Error ''locator not found'' [])
       (locatorAnalysis [''#emailField'']) ''login''
       (snd (attemptFix visibleEnv (Error ''locator not found'' [])
          (locatorAnalysis [''#usernameField'']) ''login'' session0)))) =
     calls (snd (attemptFix visibleEnv (Error ''locator not found'' [])
          (locatorAnalysis [''#usernameField'']) ''login'' session0)) @
     [IsVisibleCall (JStr ''#emailField'') 5000]"
  by (simp add: attemptFix_visible session0_def)

text \<open>
  C4, as the code has it: a fix attempt that succeeds with a locator stores it under the
  context, and nothing reads the store. The result of a fix attempt and the probes it
  makes are the same whatever the store holds, and the first probe of the locator handler
  is the first alternative locator of the classification, with a timeout of 5000 ms.
\<close>

theorem fix_cache_written_never_read:
  "(\<forall>r s'. attemptFix env error analysis context s = (Returned r, s') \<longrightarrow> success r \<longrightarrow>
      truthy (newLocator r) \<longrightarrow> map_of (successfulFixes s') context = newLocator r) \<and>
   fst (attemptFix env error analysis context (s\<lparr>successfulFixes := m\<rparr>)) =
     fst (attemptFix env error analysis context s) \<and>
   calls (snd (attemptFix env error analysis context (s\<lparr>successfulFixes := m\<rparr>))) =
     calls (snd (attemptFix env error analysis context s)) \<and>
   prefix (calls s @ [IsVisibleCall l 5000])
     (calls (snd (fixLocator env fix (Some (JArr (l # ls))) context s)))"
proof (intro conjI allI impI)
  fix r s'
  assume "attemptFix env error analysis context s = (Returned r, s')" "success r"
    "truthy (newLocator r)"
  then show "map_of (successfulFixes s') context = newLocator r"
    by (rule attemptFix_stores)
qed (simp_all add: attemptFix_cache fixLocator_first_probe)

theorem fix_cache_written_never_read_witness:
  "map_of (successfulFixes (snd (attemptFix visibleEnv (Error ''locator not found'' [])
       (locatorAnalysis [''#usernameField'']) ''login'' session0))) ''login'' =
     Some (JStr ''#usernameField'') \<and>
   fst (attemptFix visibleEnv (Error ''locator not found'' []) (locatorAnalysis [''#emailField''])
       ''login'' (session0\<lparr>successfulFixes := [(''login'', JStr ''#usernameField'')]\<rparr>)) =
     fst (attemptFix visibleEnv (Error ''locator not found'' []) (locatorAnalysis [''#emailField''])
       ''login'' session0)"
proof -
  let ?e = "Error ''locator not found'' []"
  let ?r = "found visibleEnv ''Alternative locator: '' ''Found working locator: '' (JStr ''#usernameField'')"
  let ?run = "attemptFix visibleEnv ?e (locatorAnalysis [''#usernameField'']) ''login'' session0"
  have run: "?run = (Returned ?r, snd ?run)"
    by (simp add: attemptFix_visible)
  have ok: "success ?r" "truthy (newLocator ?r)"
    by (simp_all add: found_def)
  have "\<forall>r s'. ?run = (Returned r, s') \<longrightarrow> success r \<longrightarrow> truthy (newLocator r) \<longrightarrow>
      map_of (successfulFixes s') ''login'' = newLocator r"
    by (rule fix_cache_written_never_read [THEN conjunct1])
  with run ok have "map_of (successfulFixes (snd ?run)) ''login'' = newLocator ?r" by blast
  moreover
  have "fst (attemptFix visibleEnv ?e (locatorAnalysis [''#emailField''])
       ''login'' (session0\<lparr>successfulFixes := [(''login'', JStr ''#usernameField'')]\<rparr>)) =
     fst (attemptFix visibleEnv ?e (locatorAnalysis [''#emailField'']) ''login'' session0)"
    by (rule fix_cache_written_never_read [THEN conjunct2, THEN conjunct1])
  ultimately show ?thesis by (simp add: found_def)
qed

text \<open>
  C5, as claimed: the operation throws \<^verbatim>\<open>Timeout 30000ms exceeded\<close> twice and then
  returns, with three retries; the result is the operation's and two errors are counted,
  and the counter of kind \<^verbatim>\<open>timeout\<close> is 2. With the oracle unreachable the first two hold
  and the third does not: there is no entry for that kind, and the kind \<^verbatim>\<open>unknown\<close> has
  the count 2.
\<close>

theorem scenario_counts_unknown_not_timeout:
  "\<exists>t. executeWithErrorRecovery offlineEnv (failsFirst 2 ''Timeout 30000ms exceeded'' ''done'')
          ''login'' (Some (Fin 3)) session0 = Some (ReturnsResult ''done'', t) \<and>
        totalErrors t = 2 \<and>
        map_of (errorTypes t) (Some (JStr ''timeout'')) = None \<and>
        map_of (errorTypes t) (Some (JStr ''unknown'')) = Some 2"
proof -
  have a: "hasErrorAnalyzer session0" "world session0 = 0"
    by (simp_all add: session0_def)
  show ?thesis
    unfolding run_fails_twice [OF a] by (simp add: map_of_countErrorType session0_def)
qed

text \<open>
  C5, as the code has it, when the fallback classifies: whatever the page and the console
  do, with the oracle unreachable and from any session with an analysis engine, the call
  returns the operation's result, \<^verbatim>\<open>totalErrors\<close> grows by two, and the counter that grows
  by two is the one of kind \<^verbatim>\<open>unknown\<close>; the one of kind \<^verbatim>\<open>timeout\<close> and \<^verbatim>\<open>fixedErrors\<close>
  stay as they were.
\<close>

theorem scenario_under_fallback:
  assumes unreachable: "\<And>p w. isl (fst (llm_chat env p w))" and analyzer: "hasErrorAnalyzer s"
    and fresh: "snd (world s) = 0"
  shows "\<exists>s'. executeWithErrorRecovery (counting env)
            (failsFirstCounted 2 ''Timeout 30000ms exceeded'' v) context (Some (Fin 3)) s =
          Some (ReturnsResult v, s') \<and>
     totalErrors s' = totalErrors s + 2 \<and>
     map_of (errorTypes s') (Some (JStr ''unknown'')) =
       Some ((case map_of (errorTypes s) (Some (JStr ''unknown'')) of None \<Rightarrow> 0 | Some c \<Rightarrow> c) + 2) \<and>
     map_of (errorTypes s') (Some (JStr ''timeout'')) = map_of (errorTypes s) (Some (JStr ''timeout'')) \<and>
     fixedErrors s' = fixedErrors s"
proof -
  let ?env = "counting env"
  let ?op = "failsFirstCounted 2 ''Timeout 30000ms exceeded'' v"
  have "\<exists>s1. executeLoop ?env ?op context (Fin 3) 1 s = executeLoop ?env ?op context (Fin 3) 2 s1 \<and>
          hasErrorAnalyzer s1 \<and> snd (world s1) = snd (world s) + 1 \<and>
          totalErrors s1 = totalErrors s + 1 \<and> fixedErrors s1 = fixedErrors s \<and>
          errorTypes s1 = countErrorType (Some (JStr ''unknown'')) (errorTypes s)"
    by (rule failed_iteration [OF unreachable analyzer]) (simp_all add: fresh)
  then obtain s1 where 1: "executeLoop ?env ?op context (Fin 3) 1 s = executeLoop ?env ?op context (Fin 3) 2 s1"
    and a1: "hasErrorAnalyzer s1" and w1: "snd (world s1) = snd (world s) + 1"
    and t1: "totalErrors s1 = totalErrors s + 1" and f1: "fixedErrors s1 = fixedErrors s"
    and e1: "errorTypes s1 = countErrorType (Some (JStr ''unknown'')) (errorTypes s)"
    by blast
  have "\<exists>s2. executeLoop ?env ?op context (Fin 3) 2 s1 = executeLoop ?env ?op context (Fin 3) 3 s2 \<and>
          hasErrorAnalyzer s2 \<and> snd (world s2) = snd (world s1) + 1 \<and>
          totalErrors s2 = totalErrors s1 + 1 \<and> fixedErrors s2 = fixedErrors s1 \<and>
          errorTypes s2 = countErrorType (Some (JStr ''unknown'')) (errorTypes s1)"
    by (rule failed_iteration [OF unreachable a1]) (simp_all add: w1 fresh)
  then obtain s2 where 2: "executeLoop ?env ?op context (Fin 3) 2 s1 = executeLoop ?env ?op context (Fin 3) 3 s2"
    and w2: "snd (world s2) = snd (world s1) + 1"
    and t2: "totalErrors s2 = totalErrors s1 + 1" and f2: "fixedErrors s2 = fixedErrors s1"
    and e2: "errorTypes s2 = countErrorType (Some (JStr ''unknown'')) (errorTypes s1)"
    by blast
  have "\<exists>s3. executeLoop ?env ?op context (Fin 3) 3 s2 = Some (ReturnsResult v, s3) \<and>
          totalErrors s3 = totalErrors s2 \<and> fixedErrors s3 = fixedErrors s2 \<and>
          errorTypes s3 = errorTypes s2"
    by (rule successful_iteration) (simp_all add: w2 w1 fresh)
  then obtain s3 where 3: "executeLoop ?env ?op context (Fin 3) 3 s2 = Some (ReturnsResult v, s3)"
    and t3: "totalErrors s3 = totalErrors s2" and f3: "fixedErrors s3 = fixedErrors s2"
    and e3: "errorTypes s3 = errorTypes s2"
    by blast
  have "executeWithErrorRecovery ?env ?op context (Some (Fin 3)) s = Some (ReturnsResult v, s3)"
    unfolding executeWithErrorRecovery_def retryBound_def Let_def using 1 2 3 by simp
  then show ?thesis
    by (simp add: t1 t2 t3 f1 f2 f3 e1 e2 e3 map_of_countErrorType)
qed

theorem scenario_under_fallback_witness:
  "isl (fst (llm_chat offlineEnv (UIAnalysisPrompt [] [] []) 0)) \<and>
   hasErrorAnalyzer countedSession \<and> snd (world countedSession) = 0 \<and>
   (\<exists>s'. executeWithErrorRecovery (counting offlineEnv)
          (failsFirstCounted 2 ''Timeout 30000ms exceeded'' True) ''process_job_7'' (Some (Fin 3))
          countedSession = Some (ReturnsResult True, s') \<and>
      totalErrors s' = 2 \<and>
      map_of (errorTypes s') (Some (JStr ''unknown'')) = Some 2 \<and>
      map_of (errorTypes s') (Some (JStr ''timeout'')) = None \<and>
      fixedErrors s' = 0)"
proof -
  have u: "\<And>p w. isl (fst (llm_chat offlineEnv p w))" by simp
  have a: "hasErrorAnalyzer countedSession" "snd (world countedSession) = 0"
    by (simp_all add: countedSession_def)
  from scenario_under_fallback [OF u a, of True "''process_job_7''"]
  obtain s' where run: "executeWithErrorRecovery (counting offlineEnv)
          (failsFirstCounted 2 ''Timeout 30000ms exceeded'' True) ''process_job_7'' (Some (Fin 3))
          countedSession = Some (ReturnsResult True, s')"
    and counters: "totalErrors s' = totalErrors countedSession + 2"
      "map_of (errorTypes s') (Some (JStr ''unknown'')) =
         Some ((case map_of (errorTypes countedSession) (Some (JStr ''unknown'')) of
                  None \<Rightarrow> 0 | Some c \<Rightarrow> c) + 2)"
      "map_of (errorTypes s') (Some (JStr ''timeout'')) =
         map_of (errorTypes countedSession) (Some (JStr ''timeout''))"
      "fixedErrors s' = fixedErrors countedSession"
    by blast
  from counters have "totalErrors s' = 2 \<and>
      map_of (errorTypes s') (Some (JStr ''unknown'')) = Some 2 \<and>
      map_of (errorTypes s') (Some (JStr ''timeout'')) = None \<and> fixedErrors s' = 0"
    by (simp add: countedSession_def)
  with run u a show ?thesis by blast
qed

text \<open>
  C6. Every failure of the operation is to increment \<^verbatim>\<open>totalErrors\<close> and the count of its
  message in \<^verbatim>\<open>errorHistory\<close>, whichever classifier answers. The code counts the error on
  both paths but records the message only when the oracle's reply parses: the same single
  failure leaves the history empty when the oracle is unreachable and gives the message
  the count 1 when the oracle answers.
\<close>

theorem failure_logged_only_when_oracle_answers:
  "(\<exists>t. executeWithErrorRecovery offlineEnv (failsFirst 1 ''boom'' ()) ''login'' (Some (Fin 1))
          session0 = Some (ReturnsNull, t) \<and>
        totalErrors t = 1 \<and> errorHistory t = []) \<and>
   (\<exists>t. executeWithErrorRecovery (replyingEnv ''{}'') (failsFirst 1 ''boom'' ()) ''login''
          (Some (Fin 1)) session0 = Some (ReturnsNull, t) \<and>
        totalErrors t = 1 \<and> errorHistory t = [(''boom'', 1)])"
proof -
  have a: "executeWithErrorRecovery offlineEnv (failsFirst 1 ''boom'' ()) ''login'' (Some (Fin 1))
      session0 =
      Some (ReturnsNull, session0\<lparr>world := 1, calls := [OperationCall], totalErrors := 1,
         errorTypes := [(Some (JStr ''unknown''), 1)]\<rparr>)"
    apply (simp add: executeWithErrorRecovery_def retryBound_def)
    apply (subst executeLoop.simps)
    apply (simp add: analyzeError_offline fallbackErrorAnalysis_def onPage_def failsFirst_def
        session0_def countErrorType_def Let_def)
    done
  have b: "executeWithErrorRecovery (replyingEnv ''{}'') (failsFirst 1 ''boom'' ()) ''login''
      (Some (Fin 1)) session0 =
      Some (ReturnsNull, session0\<lparr>world := 1, calls := [OperationCall], totalErrors := 1,
         errorTypes := [(None, 1)], errorHistory := [(''boom'', 1)]\<rparr>)"
    apply (simp add: executeWithErrorRecovery_def retryBound_def)
    apply (subst executeLoop.simps)
    apply (simp add: analyzeError_replying_braces logError_def onPage_def failsFirst_def
        session0_def countErrorType_def Let_def)
    done
  show ?thesis unfolding a b by (simp add: session0_def)
qed



text \<open>
  C8. The captcha handler waits for a line on standard input. As long as none arrives it
  does not return; when one arrives it returns a fix attempt with \<^verbatim>\<open>success = true\<close>. It
  never throws, and it does nothing to the page: the session it leaves differs from the
  one it found only by what happened outside while it waited. The dispatcher selects this
  handler for every fix of a classification of kind \<^verbatim>\<open>captcha\<close>.
\<close>

theorem captcha_blocks_until_resumed:
  "(readline_question env (world s) = None \<longrightarrow> fixCaptcha env fix s = (Pending, s)) \<and>
   (\<forall>r s'. fixCaptcha env fix s = (Returned r, s') \<longrightarrow>
      success r \<and> readline_question env (world s) = Some (world s') \<and> s' = s\<lparr>world := world s'\<rparr>) \<and>
   (\<forall>w. readline_question env (world s) = Some w \<longrightarrow>
      (\<exists>r. fixCaptcha env fix s = (Returned r, s\<lparr>world := w\<rparr>) \<and> success r)) \<and>
   fst (fixCaptcha env fix s) \<noteq> Thrown e \<and>
   (map_of analysis ''errorType'' = Some (JStr ''captcha'') \<longrightarrow>
      applyFix env fix analysis context s = fixCaptcha env fix s)"
  by (auto simp: fixCaptcha_def applyFix_def Let_def split: option.splits)

theorem captcha_blocks_until_resumed_witness:
  "readline_question offlineEnv (world session0) = None \<and>
   fixCaptcha offlineEnv (JStr ''solve captcha'') session0 = (Pending, session0) \<and>
   readline_question attendedEnv (world session0) = Some (world session0) \<and>
   (\<exists>r. fixCaptcha attendedEnv (JStr ''solve captcha'') session0 =
          (Returned r, session0\<lparr>world := world session0\<rparr>) \<and> success r)"
proof -
  have 1: "readline_question offlineEnv (world session0) = None" by simp
  have 2: "readline_question attendedEnv (world session0) = Some (world session0)"
    by (simp add: attendedEnv_def)
  from captcha_blocks_until_resumed [of offlineEnv session0 "JStr ''solve captcha''"]
    captcha_blocks_until_resumed [of attendedEnv session0 "JStr ''solve captcha''"] 1 2
  show ?thesis by blast
qed

text \<open>
  C9, as claimed: for every retry bound of at least one the throw on the last line of
  \<^verbatim>\<open>executeWithErrorRecovery\<close> is never reached, and every call returns the operation's
  result, returns \<^verbatim>\<open>null\<close>, or throws from inside the loop body. The bound is a number, the
  caller's or the one read from \<^verbatim>\<open>credentials.json\<close>, and nothing makes it whole: under the
  bound 2.5 an operation that always fails is invoked and repaired twice, the counter
  reaches 3, the header fails and the last line throws. Nor are the three endings all
  there are: when the failure is classified as a captcha and nobody is at the console,
  the call waits for ever.
\<close>

theorem max_retries_throw_reached_under_fractional_bound:
  "num_le (Fin 1) (retryBound (Some (Fin (5 / 2))) session0) \<and>
   (\<exists>t. executeWithErrorRecovery offlineEnv (failsFirst 5 ''timeout'' ()) ''login''
          (Some (Fin (5 / 2))) session0 = Some (ThrowsMaxRetries (Fin (5 / 2)) ''login'', t) \<and>
        opCalls t = 2) \<and>
   num_le (Fin 1) (retryBound (Some (Fin 2)) session0) \<and>
   (\<exists>t. executeWithErrorRecovery
          (replyingEnv ''{\"errorType\":\"captcha\",\"shouldRetry\":true,\"suggestedFixes\":[\"solve captcha\"]}'')
          (failsFirst 5 ''boom'' ()) ''login'' (Some (Fin 2)) session0 = Some (NeverSettles, t))"
  by (simp add: run_fractional_bound run_waits_for_captcha retryBound_def opCalls_def)

text \<open>
  C9, as the code has it. A call ends with the error of the last line only when its retry
  bound is below one or is a finite number that is not whole. So under every whole bound
  of at least one, given or configured, the throw on the last line is never reached: the
  call ends, and it returns the operation's result, returns \<^verbatim>\<open>null\<close>, throws from inside
  the loop body, or waits for a call that never settles. The reason is the last
  iteration: with the counter at the bound, the loop invokes the operation once more and
  ends the call inside its body.
\<close>

theorem max_retries_throw_only_under_fractional_bound:
  "(executeWithErrorRecovery env operation context maxRetries s = Some (ThrowsMaxRetries n c, t) \<longrightarrow>
      n = retryBound maxRetries s \<and> c = context \<and>
      (num_lt (retryBound maxRetries s) (Fin 1) \<or>
       (\<exists>q. retryBound maxRetries s = Fin q \<and> q \<notin> \<int>))) \<and>
   (retryBound maxRetries s = Fin (of_nat N) \<longrightarrow> 1 \<le> N \<longrightarrow>
      (\<exists>r t. executeWithErrorRecovery env operation context maxRetries s = Some (r, t) \<and>
         ((\<exists>v. r = ReturnsResult v) \<or> r = ReturnsNull \<or> (\<exists>e. r = ThrowsInLoop e) \<or>
          r = NeverSettles))) \<and>
   (\<exists>r t. executeLoop env operation context (Fin (of_nat N)) N s' = Some (r, t) \<and>
      (\<forall>n c. r \<noteq> ThrowsMaxRetries n c) \<and> opCalls t = opCalls s' + 1)"
proof -
  let ?bound = "retryBound maxRetries s"
  have run: "executeWithErrorRecovery env operation context maxRetries s =
      executeLoop env operation context ?bound 1 s"
    by (simp add: executeWithErrorRecovery_def)
  have only: "n = ?bound \<and> c = context \<and>
      (num_lt ?bound (Fin 1) \<or> (\<exists>q. ?bound = Fin q \<and> q \<notin> \<int>))"
    if "executeWithErrorRecovery env operation context maxRetries s =
      Some (ThrowsMaxRetries n c, t)" for n c t
    using that unfolding run by (rule header_fails_only)
  have whole: "\<exists>r t. executeWithErrorRecovery env operation context maxRetries s = Some (r, t) \<and>
      ((\<exists>v. r = ReturnsResult v) \<or> r = ReturnsNull \<or> (\<exists>e. r = ThrowsInLoop e) \<or>
       r = NeverSettles)"
    if bound: "?bound = Fin (of_nat N)" and N: "1 \<le> N"
  proof -
    from executeLoop_opCalls [of env operation "context" "of_nat N" 1 s]
    obtain r t where ends: "executeLoop env operation context (Fin (of_nat N)) 1 s = Some (r, t)"
      by blast
    have "r \<noteq> ThrowsMaxRetries n' c'" for n' c'
    proof
      assume "r = ThrowsMaxRetries n' c'"
      with ends have "executeWithErrorRecovery env operation context maxRetries s =
          Some (ThrowsMaxRetries n' c', t)"
        unfolding run bound by simp
      from only [OF this] bound N show False by simp
    qed
    then have "\<forall>n c. r \<noteq> ThrowsMaxRetries n c" by blast
    then have "(\<exists>v. r = ReturnsResult v) \<or> r = ReturnsNull \<or> (\<exists>e. r = ThrowsInLoop e) \<or>
        r = NeverSettles"
      by (cases r) auto
    with ends show ?thesis unfolding run bound by blast
  qed
  have last: "\<exists>r t. executeLoop env operation context (Fin (of_nat N)) N s' = Some (r, t) \<and>
      (\<forall>n c. r \<noteq> ThrowsMaxRetries n c) \<and> opCalls t = opCalls s' + 1"
    using executeLoop_step [of N "Fin (of_nat N)" env operation "context" s'] by auto
  from only whole last show ?thesis by blast
qed

theorem max_retries_throw_only_under_fractional_bound_witness:
  "executeWithErrorRecovery offlineEnv (failsFirst 5 ''timeout'' ()) ''login''
      (Some (Fin (5 / 2))) session0 =
     Some (ThrowsMaxRetries (Fin (5 / 2)) ''login'',
       session0\<lparr>world := 2,
         calls := [OperationCall, AttemptFixCall, OperationCall, AttemptFixCall],
         totalErrors := 2, fixedErrors := 2, errorTypes := [(Some (JStr ''timeout''), 2)]\<rparr>) \<and>
   retryBound (Some (Fin (5 / 2))) session0 = Fin (5 / 2) \<and> (5 / 2 :: rat) \<notin> \<int> \<and>
   retryBound (Some (Fin 2)) session0 = Fin (of_nat 2) \<and> (1 :: nat) \<le> 2 \<and>
   (\<exists>t. executeWithErrorRecovery offlineEnv (failsFirst 5 ''timeout'' ()) ''login''
          (Some (Fin 2)) session0 = Some (ReturnsNull, t)) \<and>
   retryBound None session0 = Fin (of_nat 3) \<and> (1 :: nat) \<le> 3 \<and>
   (\<exists>r t. executeWithErrorRecovery offlineEnv (failsFirst 5 ''timeout'' ()) ''login''
          None session0 = Some (r, t) \<and> r \<noteq> ThrowsMaxRetries (Fin 3) ''login'')"
proof -
  let ?op = "failsFirst 5 ''timeout'' ()"
  have thrown: "executeWithErrorRecovery offlineEnv ?op ''login'' (Some (Fin (5 / 2))) session0 =
     Some (ThrowsMaxRetries (Fin (5 / 2)) ''login'',
       session0\<lparr>world := 2,
         calls := [OperationCall, AttemptFixCall, OperationCall, AttemptFixCall],
         totalErrors := 2, fixedErrors := 2, errorTypes := [(Some (JStr ''timeout''), 2)]\<rparr>)"
    by (rule run_fractional_bound)
  have b1: "retryBound (Some (Fin (5 / 2))) session0 = Fin (5 / 2)"
    and b2: "retryBound (Some (Fin 2)) session0 = Fin (of_nat 2)"
    and b3: "retryBound None session0 = Fin (of_nat 3)"
    by (simp_all add: retryBound_def session0_def)
  let ?t = "session0\<lparr>world := 2,
         calls := [OperationCall, AttemptFixCall, OperationCall, AttemptFixCall],
         totalErrors := 2, fixedErrors := 2, errorTypes := [(Some (JStr ''timeout''), 2)]\<rparr>"
  have "executeWithErrorRecovery offlineEnv ?op ''login'' (Some (Fin (5 / 2))) session0 =
      Some (ThrowsMaxRetries (Fin (5 / 2)) ''login'', ?t) \<longrightarrow>
    Fin (5 / 2) = retryBound (Some (Fin (5 / 2))) session0 \<and> ''login'' = ''login'' \<and>
    (num_lt (retryBound (Some (Fin (5 / 2))) session0) (Fin 1) \<or>
     (\<exists>q. retryBound (Some (Fin (5 / 2))) session0 = Fin q \<and> q \<notin> \<int>))"
    by (rule max_retries_throw_only_under_fractional_bound
        [of offlineEnv ?op "''login''" "Some (Fin (5 / 2))" session0 "Fin (5 / 2)" "''login''" ?t
          2 session0, THEN conjunct1])
  with thrown have "num_lt (retryBound (Some (Fin (5 / 2))) session0) (Fin 1) \<or>
     (\<exists>q. retryBound (Some (Fin (5 / 2))) session0 = Fin q \<and> q \<notin> \<int>)"
    by blast
  then have frac: "(5 / 2 :: rat) \<notin> \<int>" unfolding b1 by simp
  have "retryBound (Some (Fin 2)) session0 = Fin (of_nat 2) \<longrightarrow> 1 \<le> (2 :: nat) \<longrightarrow>
      (\<exists>r t. executeWithErrorRecovery offlineEnv ?op ''login'' (Some (Fin 2)) session0 = Some (r, t) \<and>
         ((\<exists>v. r = ReturnsResult v) \<or> r = ReturnsNull \<or> (\<exists>e. r = ThrowsInLoop e) \<or>
          r = NeverSettles))"
    by (rule max_retries_throw_only_under_fractional_bound
        [of offlineEnv ?op "''login''" "Some (Fin 2)" session0 "Fin 2" "''login''" session0
          2 session0, THEN conjunct2, THEN conjunct1])
  with b2
  have "\<exists>r t. executeWithErrorRecovery offlineEnv ?op ''login'' (Some (Fin 2)) session0 = Some (r, t)"
    by auto
  then have two: "\<exists>t. executeWithErrorRecovery offlineEnv ?op ''login'' (Some (Fin 2)) session0 =
      Some (ReturnsNull, t)"
    by (simp add: run_always_timeout)
  have "retryBound None session0 = Fin (of_nat 3) \<longrightarrow> 1 \<le> (3 :: nat) \<longrightarrow>
      (\<exists>r t. executeWithErrorRecovery offlineEnv ?op ''login'' None session0 = Some (r, t) \<and>
         ((\<exists>v. r = ReturnsResult v) \<or> r = ReturnsNull \<or> (\<exists>e. r = ThrowsInLoop e) \<or>
          r = NeverSettles))"
    by (rule max_retries_throw_only_under_fractional_bound
        [of offlineEnv ?op "''login''" None session0 "Fin 3" "''login''" session0
          3 session0, THEN conjunct2, THEN conjunct1])
  with b3
  have "\<exists>r t. executeWithErrorRecovery offlineEnv ?op ''login'' None session0 = Some (r, t) \<and>
      ((\<exists>v. r = ReturnsResult v) \<or> r = ReturnsNull \<or> (\<exists>e. r = ThrowsInLoop e) \<or> r = NeverSettles)"
    by simp
  then have three: "\<exists>r t. executeWithErrorRecovery offlineEnv ?op ''login'' None session0 =
      Some (r, t) \<and> r \<noteq> ThrowsMaxRetries (Fin 3) ''login''"
    by auto
  from thrown b1 frac b2 two b3 three show ?thesis by simp
qed

text \<open>
  C10. For every job, every reply of the oracle and every failure of it, the object that
  \<^verbatim>\<open>analyzeJob\<close> returns has a confidence score that is a number from 0 to 100, on the
  oracle's path as on the local one.
\<close>

theorem analyzeJob_confidence_in_range:
  "confidenceInRange (fst (analyzeJob env this jobTitle company jobDescription salary w))"
proof -
  let ?local = "JObj (jobObject (localJobAnalysis this jobTitle company jobDescription salary))"
  have l: "confidenceInRange ?local" by (rule local_in_range)
  obtain r w' where f: "fetch_chat env
      (JobPrompt (userProfile this) jobTitle company salary jobDescription) w = (r, w')"
    by (cases "fetch_chat env
      (JobPrompt (userProfile this) jobTitle company salary jobDescription) w")
  show ?thesis
    unfolding analyzeJob_def Let_def f prod.case
    using l by (auto split: sum.splits option.splits intro: clamped_in_range)
qed

theorem analyzeJob_confidence_in_range_witness:
  "confidenceInRange (fst (analyzeJob offlineEnv tester ''Senior Selenium Java Engineer'' ''Acme''
      ''unpaid intern'' ''10 LPA'' 0)) \<and>
   fst (analyzeJob offlineEnv tester ''Senior Selenium Java Engineer'' ''Acme'' ''unpaid intern''
      ''10 LPA'' 0) =
     JObj (jobObject \<lparr>shouldApply = False, confidenceScore = Fin 0,
        reasoning = ''Found 2 matching skills: selenium, java'',
        matchedSkills = [''selenium'', ''java''],
        concerns = [''Contains red flag: intern'', ''Contains red flag: unpaid'']\<rparr>) \<and>
   confidenceInRange (fst (analyzeJob
      (replyingEnv ''{\"shouldApply\":true,\"confidenceScore\":250,\"reasoning\":\"\",\"matchedSkills\":[],\"concerns\":[]}'')
      tester ''QA Lead'' ''Acme'' ''automation'' ''10 LPA'' 0)) \<and>
   fst (analyzeJob
      (replyingEnv ''{\"shouldApply\":true,\"confidenceScore\":250,\"reasoning\":\"\",\"matchedSkills\":[],\"concerns\":[]}'')
      tester ''QA Lead'' ''Acme'' ''automation'' ''10 LPA'' 0) =
     JObj [(''shouldApply'', JBool True), (''confidenceScore'', JNum (Fin 100)),
           (''reasoning'', JStr []), (''matchedSkills'', JArr []), (''concerns'', JArr [])]"
proof -
  have a: "fst (analyzeJob offlineEnv tester ''Senior Selenium Java Engineer'' ''Acme'' ''unpaid intern''
      ''10 LPA'' 0) =
     JObj (jobObject \<lparr>shouldApply = False, confidenceScore = Fin 0,
        reasoning = ''Found 2 matching skills: selenium, java'',
        matchedSkills = [''selenium'', ''java''],
        concerns = [''Contains red flag: intern'', ''Contains red flag: unpaid'']\<rparr>)"
    by code_simp
  have b: "fst (analyzeJob
      (replyingEnv ''{\"shouldApply\":true,\"confidenceScore\":250,\"reasoning\":\"\",\"matchedSkills\":[],\"concerns\":[]}'')
      tester ''QA Lead'' ''Acme'' ''automation'' ''10 LPA'' 0) =
     JObj [(''shouldApply'', JBool True), (''confidenceScore'', JNum (Fin 100)),
           (''reasoning'', JStr []), (''matchedSkills'', JArr []), (''concerns'', JArr [])]"
    by code_simp
  from analyzeJob_confidence_in_range [of offlineEnv tester "''Senior Selenium Java Engineer''"
      "''Acme''" "''unpaid intern''" "''10 LPA''" 0]
    analyzeJob_confidence_in_range [of
      "replyingEnv ''{\"shouldApply\":true,\"confidenceScore\":250,\"reasoning\":\"\",\"matchedSkills\":[],\"concerns\":[]}''"
      tester "''QA Lead''" "''Acme''" "''automation''" "''10 LPA''" 0]
    a b
  show ?thesis by simp
qed

end
